theory Spec2Isabelle
  imports Complex_Main "HOL-Library.Char_ord" "HOL-Library.List_Lexorder"
begin

section \<open>Python values\<close>

text \<open>
  Records travel through the uploader as Python dictionaries whose values are \<open>None\<close>,
  booleans, integers, floats, strings, lists or nested dictionaries.  A float is either
  a finite number, one of the two infinities, or NaN; the finite case carries the exact
  value of the double.  A dictionary is an association list in insertion order, looked
  up with \<open>map_of\<close>.
\<close>

datatype pyfloat = Finite real | PosInf | NegInf | NaN

datatype pyval =
    PNone
  | PBool bool
  | PInt int
  | PFloat pyfloat
  | PStr string
  | PList "pyval list"
  | PDict "(string \<times> pyval) list"

type_synonym pyrecord = "(string \<times> pyval) list"

datatype pyexn = ValueError | TypeError | OverflowError

text \<open>\<open>d.get(k)\<close> and \<open>d.get(k, default)\<close>.\<close>

definition dict_get :: "pyrecord \<Rightarrow> string \<Rightarrow> pyval" where
  "dict_get d k = (case map_of d k of None \<Rightarrow> PNone | Some v \<Rightarrow> v)"

definition dict_get_default :: "pyrecord \<Rightarrow> string \<Rightarrow> pyval \<Rightarrow> pyval" where
  "dict_get_default d k dflt = (case map_of d k of None \<Rightarrow> dflt | Some v \<Rightarrow> v)"

text \<open>
  Comparison of a float with a finite constant, as \<open>x < c\<close> and \<open>x > c\<close> evaluate in
  Python: every comparison with NaN is false.
\<close>

fun float_lt :: "pyfloat \<Rightarrow> real \<Rightarrow> bool" where
  "float_lt (Finite r) c = (r < c)"
| "float_lt NegInf c = True"
| "float_lt PosInf c = False"
| "float_lt NaN c = False"

fun float_gt :: "pyfloat \<Rightarrow> real \<Rightarrow> bool" where
  "float_gt (Finite r) c = (r > c)"
| "float_gt PosInf c = True"
| "float_gt NegInf c = False"
| "float_gt NaN c = False"

text \<open>
  The builtin \<open>float(v)\<close>.  The reading of a string is the parameter \<open>parse\<close>
  (\<open>None\<close> when the text is no float literal, which raises \<open>ValueError\<close>).  An integer
  converts to the nearest double and raises \<open>OverflowError\<close> from \<open>2^1024 - 2^970\<close> on;
  the model keeps the integer's exact value, which compares with the bounds
  \<open>-20\<close>, \<open>0\<close>, \<open>60\<close> and \<open>100\<close> as its nearest double does.
\<close>

fun py_float :: "(string \<Rightarrow> pyfloat option) \<Rightarrow> pyval \<Rightarrow> pyexn + pyfloat" where
  "py_float parse PNone = Inl TypeError"
| "py_float parse (PBool b) = Inr (Finite (if b then 1 else 0))"
| "py_float parse (PInt n) =
     (if \<bar>n\<bar> < 2 ^ 1024 - 2 ^ 970 then Inr (Finite (of_int n)) else Inl OverflowError)"
| "py_float parse (PFloat f) = Inr f"
| "py_float parse (PStr s) = (case parse s of None \<Rightarrow> Inl ValueError | Some f \<Rightarrow> Inr f)"
| "py_float parse (PList xs) = Inl TypeError"
| "py_float parse (PDict kvs) = Inl TypeError"

section \<open>The phase router (\<open>MockUploader\<close>)\<close>

record MockUploader =
  current_pipeline_type :: string
  node_id :: string

text \<open>
  \<open>_mock_transform_to_turbine_schema\<close>.  The f-string \<open>f"turbine_{...}"\<close> formats the
  record's \<open>id\<close> with the builtin \<open>str\<close>, the parameter \<open>py_str\<close>.
\<close>

definition mock_transform_to_turbine_schema ::
    "(pyval \<Rightarrow> string) \<Rightarrow> MockUploader \<Rightarrow> pyrecord \<Rightarrow> pyrecord" where
  "mock_transform_to_turbine_schema py_str self rec =
     [(''timestamp'', dict_get rec ''timestamp''),
      (''turbine_id'', PStr (''turbine_'' @ py_str (dict_get_default rec ''id'' (PStr ''001'')))),
      (''site_id'', PStr ''test_site''),
      (''temperature'', dict_get rec ''temperature''),
      (''humidity'', dict_get rec ''humidity''),
      (''pressure'', dict_get_default rec ''pressure'' (PFloat (Finite 1013.25))),
      (''wind_speed'', PFloat (Finite 15.0)),
      (''power_output'', PFloat (Finite 1500.0)),
      (''pipeline_metadata'',
         PDict [(''stage'', PStr (current_pipeline_type self)),
                (''processed_at'', PStr ''2024-01-15T10:30:00Z'')])]"

text \<open>
  The two \<open>try\<close> blocks of \<open>_mock_validate_record\<close>: \<open>None\<close> becomes \<open>0.0\<close> without
  calling \<open>float\<close>; a \<open>ValueError\<close> or \<open>TypeError\<close> of \<open>float\<close> becomes \<open>0.0\<close>; any
  other exception is not caught.
\<close>

definition coerce_float :: "(string \<Rightarrow> pyfloat option) \<Rightarrow> pyval \<Rightarrow> pyexn + pyfloat" where
  "coerce_float parse v =
     (if v = PNone then Inr (Finite 0.0)
      else case py_float parse v of
             Inr f \<Rightarrow> Inr f
           | Inl ValueError \<Rightarrow> Inr (Finite 0.0)
           | Inl TypeError \<Rightarrow> Inr (Finite 0.0)
           | Inl e \<Rightarrow> Inl e)"

definition mock_validate_record :: "(string \<Rightarrow> pyfloat option) \<Rightarrow> pyrecord \<Rightarrow> pyexn + bool" where
  "mock_validate_record parse rec =
     (let temp = dict_get_default rec ''temperature'' (PInt 0);
          humidity = dict_get_default rec ''humidity'' (PInt 0)
      in case coerce_float parse temp of
           Inl e \<Rightarrow> Inl e
         | Inr temp \<Rightarrow>
             (case coerce_float parse humidity of
                Inl e \<Rightarrow> Inl e
              | Inr humidity \<Rightarrow>
                  if float_lt temp (-20) \<or> float_gt temp 60 then Inr False
                  else if float_lt humidity 0 \<or> float_gt humidity 100 then Inr False
                  else Inr True))"

text \<open>
  The loop of \<open>_validate_and_split_data\<close>, with the two result lists as accumulators.
  An exception raised while validating a record ends the call.
\<close>

fun split_loop ::
    "(pyval \<Rightarrow> string) \<Rightarrow> (string \<Rightarrow> pyfloat option) \<Rightarrow> MockUploader \<Rightarrow> pyrecord list \<Rightarrow>
     pyrecord list \<Rightarrow> pyrecord list \<Rightarrow> pyexn + (pyrecord list \<times> pyrecord list)" where
  "split_loop py_str parse self [] valid_records invalid_records =
     Inr (valid_records, invalid_records)"
| "split_loop py_str parse self (rec # data) valid_records invalid_records =
     (if current_pipeline_type self = ''raw'' then
        split_loop py_str parse self data (valid_records @ [rec]) invalid_records
      else if current_pipeline_type self = ''schematized'' then
        split_loop py_str parse self data
          (valid_records @ [mock_transform_to_turbine_schema py_str self rec]) invalid_records
      else if current_pipeline_type self = ''validated'' then
        (let transformed_record = mock_transform_to_turbine_schema py_str self rec
         in case mock_validate_record parse transformed_record of
              Inl e \<Rightarrow> Inl e
            | Inr ok \<Rightarrow>
                if ok then
                  split_loop py_str parse self data
                    (valid_records @ [transformed_record]) invalid_records
                else
                  split_loop py_str parse self data
                    valid_records (invalid_records @ [transformed_record]))
      else if current_pipeline_type self = ''aggregated'' then
        split_loop py_str parse self data (valid_records @ [rec]) invalid_records
      else if current_pipeline_type self = ''anomaly'' then
        split_loop py_str parse self data (valid_records @ [rec]) invalid_records
      else
        split_loop py_str parse self data (valid_records @ [rec]) invalid_records)"

definition validate_and_split_data ::
    "(pyval \<Rightarrow> string) \<Rightarrow> (string \<Rightarrow> pyfloat option) \<Rightarrow> MockUploader \<Rightarrow> pyrecord list \<Rightarrow>
     pyexn + (pyrecord list \<times> pyrecord list)" where
  "validate_and_split_data py_str parse self data = split_loop py_str parse self data [] []"







section \<open>The transformation hash (\<open>pipeline_metadata.py\<close>)\<close>

text \<open>
  \<open>get_pipeline_version\<close> reads the process environment, a map from variable names to
  values.
\<close>

definition get_pipeline_version :: "(string \<rightharpoonup> string) \<Rightarrow> string" where
  "get_pipeline_version environ =
     (case environ ''PIPELINE_VERSION'' of None \<Rightarrow> ''0.9.0'' | Some v \<Rightarrow> v)"

text \<open>
  The part of \<open>json.dumps(..., sort_keys=True)\<close> the hash uses: strings, lists and
  objects, with the default separators and every object's members in key order.  The
  encoding of a string literal (quotes and escapes) is the parameter \<open>json_str\<close>.
\<close>

datatype json = JStr string | JArr "json list" | JObj "(string \<times> json) list"

fun join :: "string \<Rightarrow> string list \<Rightarrow> string" where
  "join sep [] = []"
| "join sep [x] = x"
| "join sep (x # y # ys) = x @ sep @ join sep (y # ys)"

fun json_dumps :: "(string \<Rightarrow> string) \<Rightarrow> json \<Rightarrow> string" where
  "json_dumps json_str (JStr s) = json_str s"
| "json_dumps json_str (JArr xs) = ''['' @ join '', '' (map (json_dumps json_str) xs) @ '']''"
| "json_dumps json_str (JObj kvs) =
     ''{'' @ join '', ''
              (map (\<lambda>kv. json_str (fst kv) @ '': '' @ json_dumps json_str (snd kv))
                 (sort_key fst kvs)) @ ''}''"

text \<open>
  \<open>generate_transformation_hash\<close>.  The configuration is a dictionary (an association
  list whose keys are distinct); SHA-256 with its hexadecimal digest is the parameter
  \<open>sha256_hex\<close>.
\<close>

definition generate_transformation_hash ::
    "(string \<Rightarrow> string) \<Rightarrow> (string \<Rightarrow> string) \<Rightarrow> (string \<rightharpoonup> string) \<Rightarrow>
     string \<Rightarrow> pyrecord \<Rightarrow> string" where
  "generate_transformation_hash sha256_hex json_str environ pipeline_type config =
     (let transformation_def =
            JObj [(''pipeline_type'', JStr pipeline_type),
                  (''version'', JStr (get_pipeline_version environ)),
                  (''config_keys'', JArr (map JStr (sort (map fst config))))];
          hash_input = json_dumps json_str transformation_def
      in sha256_hex hash_input)"

section \<open>Strings and errors of the database layer\<close>

text \<open>
  A string is a list of characters with code points below 256.  On these, \<open>str.strip\<close>
  removes the characters that \<open>str.isspace\<close> accepts: tab to carriage return, the
  separators \<open>0x1C\<close> to \<open>0x1F\<close>, the space, the next-line character \<open>0x85\<close> and the
  no-break space \<open>0xA0\<close>.  \<open>str.upper\<close> may leave the range or lengthen the text (the
  micro sign becomes \<open>U+039C\<close>, the sharp s becomes \<open>SS\<close>, the y with diaeresis becomes
  \<open>U+0178\<close>), so its result is a list of code points.  \<open>str.lower\<close> stays in the range.
\<close>

definition py_isspace :: "char \<Rightarrow> bool" where
  "py_isspace c =
     ((of_char c :: nat) \<in> {9, 10, 11, 12, 13, 28, 29, 30, 31, 32, 133, 160})"

definition py_strip :: "string \<Rightarrow> string" where
  "py_strip s = rev (dropWhile py_isspace (rev (dropWhile py_isspace s)))"

definition upper_code_points :: "nat \<Rightarrow> nat list" where
  "upper_code_points n =
     (if 97 \<le> n \<and> n \<le> 122 then [n - 32]
      else if n = 181 then [924]
      else if n = 223 then [83, 83]
      else if 224 \<le> n \<and> n \<le> 254 \<and> n \<noteq> 247 then [n - 32]
      else if n = 255 then [376]
      else [n])"

definition py_upper :: "string \<Rightarrow> nat list" where
  "py_upper s = concat (map (\<lambda>c. upper_code_points (of_char c)) s)"

definition py_lower :: "string \<Rightarrow> string" where
  "py_lower s =
     map (\<lambda>c. if (65 \<le> (of_char c :: nat) \<and> (of_char c :: nat) \<le> 90) \<or>
                 (192 \<le> (of_char c :: nat) \<and> (of_char c :: nat) \<le> 222 \<and>
                  (of_char c :: nat) \<noteq> 215)
              then char_of ((of_char c :: nat) + 32) else c) s"

text \<open>\<open>str.startswith\<close> and the substring test \<open>needle in hay\<close>.\<close>

definition startswith :: "'a list \<Rightarrow> 'a list \<Rightarrow> bool" where
  "startswith s p = (take (length p) s = p)"

fun py_in :: "string \<Rightarrow> string \<Rightarrow> bool" where
  "py_in needle [] = (needle = [])"
| "py_in needle (c # cs) = (startswith (c # cs) needle \<or> py_in needle cs)"

text \<open>The decimal text of an integer, as an f-string writes it.\<close>

fun str_nat :: "nat \<Rightarrow> string" where
  "str_nat n = (if n < 10 then [char_of (48 + n)]
                else str_nat (n div 10) @ [char_of (48 + n mod 10)])"

definition str_int :: "int \<Rightarrow> string" where
  "str_int i = (if i < 0 then ''-'' @ str_nat (nat (- i)) else str_nat (nat i))"

text \<open>
  The exceptions of the database layer, each with its message:
  \<open>sqlite3.OperationalError\<close>, \<open>ValueError\<close>, \<open>FileNotFoundError\<close>, \<open>RuntimeError\<close>, and
  \<open>OtherError\<close> for any other exception.
\<close>

datatype error =
    OperationalError string
  | ValueErrorMsg string
  | FileNotFoundError string
  | RuntimeError string
  | OtherError string

fun error_message :: "error \<Rightarrow> string" where
  "error_message (OperationalError m) = m"
| "error_message (ValueErrorMsg m) = m"
| "error_message (FileNotFoundError m) = m"
| "error_message (RuntimeError m) = m"
| "error_message (OtherError m) = m"

text \<open>
  The database engine is outside the program.  The world holds what it does next: a
  script of faults, one entry consumed by each call into the engine (\<open>None\<close>, or a
  script that has run out, lets the call succeed); the delays slept so far; and the log
  of the calls made.
\<close>

datatype event = Connect | Execute string | Close

record world =
  faults :: "error option list"
  slept :: "real list"
  db_log :: "event list"

definition sqlite_connect :: "'a world_scheme \<Rightarrow> error option \<times> 'a world_scheme" where
  "sqlite_connect w =
     (case faults w of
        [] \<Rightarrow> (None, w\<lparr>db_log := db_log w @ [Connect]\<rparr>)
      | f # fs \<Rightarrow> (f, w\<lparr>faults := fs, db_log := db_log w @ [Connect]\<rparr>))"

definition sqlite_execute ::
    "string \<Rightarrow> (error + 'r) \<Rightarrow> 'a world_scheme \<Rightarrow> (error + 'r) \<times> 'a world_scheme" where
  "sqlite_execute sql answer w =
     (case faults w of
        [] \<Rightarrow> (answer, w\<lparr>db_log := db_log w @ [Execute sql]\<rparr>)
      | None # fs \<Rightarrow> (answer, w\<lparr>faults := fs, db_log := db_log w @ [Execute sql]\<rparr>)
      | Some e # fs \<Rightarrow> (Inl e, w\<lparr>faults := fs, db_log := db_log w @ [Execute sql]\<rparr>))"

definition sqlite_close :: "'a world_scheme \<Rightarrow> 'a world_scheme" where
  "sqlite_close w = w\<lparr>db_log := db_log w @ [Close]\<rparr>"

definition sleep :: "real \<Rightarrow> 'a world_scheme \<Rightarrow> 'a world_scheme" where
  "sleep d w = w\<lparr>slept := slept w @ [d]\<rparr>"

section \<open>The sensor database reader (\<open>sensor_db_reader.py\<close>)\<close>

record SensorReaderConfig =
  max_retries :: int
  initial_retry_delay :: real
  timeout :: real
  verbose :: bool

definition default_reader_config :: SensorReaderConfig where
  "default_reader_config =
     \<lparr>max_retries = 5, initial_retry_delay = 0.1, timeout = 30.0, verbose = False\<rparr>"

record SensorDatabaseReader =
  db_path :: string
  config :: SensorReaderConfig
  connection_string :: string


text \<open>
  \<open>get_connection\<close> is a generator-based context manager; \<open>body\<close> is the block run under
  \<open>with\<close>.  An exception of the block is thrown into the generator at its \<open>yield\<close> and
  so meets the same \<open>except\<close> clauses as a failed \<open>connect\<close>.  When such an exception
  is retried (\<open>thrown\<close> is then set) and a later \<open>connect\<close> succeeds, the generator
  yields a second time, which \<open>contextlib\<close> answers with a \<open>RuntimeError\<close>.  The first
  argument of the loop counts the iterations left of \<open>range(max_retries)\<close>.
\<close>

definition should_retry :: "SensorDatabaseReader \<Rightarrow> error \<Rightarrow> int \<Rightarrow> bool" where
  "should_retry self e attempt =
     (case e of
        OperationalError m \<Rightarrow>
          (py_in ''locked'' (py_lower m) \<or> py_in ''busy'' (py_lower m)) \<and>
          attempt < max_retries (config self) - 1
      | _ \<Rightarrow> False)"

fun get_connection_loop ::
    "SensorDatabaseReader \<Rightarrow> (world \<Rightarrow> (error + 'r) \<times> world) \<Rightarrow> nat \<Rightarrow> nat \<Rightarrow> bool \<Rightarrow>
     error option \<Rightarrow> world \<Rightarrow> (error + 'r) \<times> world" where
  "get_connection_loop self body 0 attempt thrown last_error w =
     (Inl (OperationalError
             (''Failed to connect to sensor database after '' @
              str_int (max_retries (config self)) @ '' attempts: '' @
              (case last_error of None \<Rightarrow> ''None'' | Some e \<Rightarrow> error_message e))), w)"
| "get_connection_loop self body (Suc n) attempt thrown last_error w =
     (case sqlite_connect w of
        (Some e, w1) \<Rightarrow>
          if should_retry self e (int attempt) then
            get_connection_loop self body n (Suc attempt) thrown (Some e)
              (sleep (initial_retry_delay (config self) * 2 ^ attempt) w1)
          else (Inl e, w1)
      | (None, w1) \<Rightarrow>
          if thrown then (Inl (RuntimeError ''generator didn't stop after throw()''), w1)
          else
            (case body w1 of
               (Inr v, w2) \<Rightarrow> (Inr v, sqlite_close w2)
             | (Inl e, w2) \<Rightarrow>
                 if should_retry self e (int attempt) then
                   get_connection_loop self body n (Suc attempt) True (Some e)
                     (sleep (initial_retry_delay (config self) * 2 ^ attempt) (sqlite_close w2))
                 else (Inl e, sqlite_close w2)))"

definition get_connection ::
    "SensorDatabaseReader \<Rightarrow> (world \<Rightarrow> (error + 'r) \<times> world) \<Rightarrow> world \<Rightarrow> (error + 'r) \<times> world" where
  "get_connection self body w =
     get_connection_loop self body (nat (max_retries (config self))) 0 False None w"

text \<open>
  The query text of \<open>read_sensor_data\<close>, built as the code builds it: a clause is added
  when its argument is truthy, so \<open>None\<close>, the empty string and \<open>0\<close> add nothing.
\<close>

definition build_query ::
    "string \<Rightarrow> string option \<Rightarrow> string option \<Rightarrow> int option \<Rightarrow> int option \<Rightarrow> string" where
  "build_query table_name where_clause order_by limit offset =
     (let query = ''SELECT * FROM '' @ table_name;
          query = (case where_clause of
                     Some wc \<Rightarrow> if wc \<noteq> [] then query @ '' WHERE '' @ wc else query
                   | None \<Rightarrow> query);
          query = (case order_by of
                     Some ob \<Rightarrow> if ob \<noteq> [] then query @ '' ORDER BY '' @ ob
                               else query @ '' ORDER BY timestamp DESC''
                   | None \<Rightarrow> query @ '' ORDER BY timestamp DESC'');
          query = (case limit of
                     Some n \<Rightarrow> if n \<noteq> 0 then query @ '' LIMIT '' @ str_int n else query
                   | None \<Rightarrow> query);
          query = (case offset of
                     Some k \<Rightarrow> if k \<noteq> 0 then query @ '' OFFSET '' @ str_int k else query
                   | None \<Rightarrow> query)
      in query)"

text \<open>
  \<open>read_sensor_data\<close>.  The engine is outside the program: its answer to the text of a
  statement is the parameter \<open>run\<close>, the rows it returns or the exception it raises.
\<close>

definition read_sensor_data ::
    "SensorDatabaseReader \<Rightarrow> (string \<Rightarrow> error + 'r list) \<Rightarrow>
     string \<Rightarrow> string option \<Rightarrow> string option \<Rightarrow> int option \<Rightarrow> int option \<Rightarrow>
     world \<Rightarrow> (error + 'r list) \<times> world" where
  "read_sensor_data self run table_name where_clause order_by limit offset w =
     get_connection self
       (\<lambda>w1. sqlite_execute (build_query table_name where_clause order_by limit offset)
                (run (build_query table_name where_clause order_by limit offset)) w1)
       w"

text \<open>
  \<open>read_with_query\<close>.  The engine's answer to an arbitrary statement with its parameters
  is the parameter \<open>run_sql\<close>.
\<close>

definition read_with_query ::
    "SensorDatabaseReader \<Rightarrow> (string \<Rightarrow> pyval list \<Rightarrow> error + 'r list) \<Rightarrow>
     string \<Rightarrow> pyval list option \<Rightarrow> world \<Rightarrow> (error + 'r list) \<times> world" where
  "read_with_query self run_sql query params w =
     (let query_upper = py_upper (py_strip query)
      in if \<not> startswith query_upper (map of_char ''SELECT'')
         then (Inl (ValueErrorMsg ''Only SELECT queries are allowed on sensor database''), w)
         else get_connection self
                (\<lambda>w1. sqlite_execute query
                         (run_sql query (case params of None \<Rightarrow> [] | Some ps \<Rightarrow> ps)) w1)
                w)"

text \<open>
  \<open>stream_sensor_data\<close> is a generator with a \<open>while True\<close> loop.  The model runs it to
  its end and returns the batches yielded, the exception that ended it if one did, and
  the world; the first argument bounds the number of reads, and \<open>None\<close> says that the
  bound was reached with the loop still running.  The engine \<open>run\<close> is the same at
  every read: the table does not change while it is streamed.
\<close>

fun stream_loop ::
    "nat \<Rightarrow> SensorDatabaseReader \<Rightarrow> (string \<Rightarrow> error + 'r list) \<Rightarrow>
     string \<Rightarrow> int \<Rightarrow> string option \<Rightarrow> string option \<Rightarrow> int \<Rightarrow> 'r list list \<Rightarrow> world \<Rightarrow>
     ('r list list \<times> error option \<times> world) option" where
  "stream_loop 0 self run table_name batch_size where_clause order_by offset yielded w =
     None"
| "stream_loop (Suc fuel) self run table_name batch_size where_clause order_by offset
       yielded w =
     (case read_sensor_data self run table_name where_clause order_by
             (Some batch_size) (Some offset) w of
        (Inl e, w1) \<Rightarrow> Some (yielded, Some e, w1)
      | (Inr batch, w1) \<Rightarrow>
          if batch = [] then Some (yielded, None, w1)
          else if int (length batch) < batch_size then Some (yielded @ [batch], None, w1)
          else stream_loop fuel self run table_name batch_size where_clause order_by
                 (offset + batch_size) (yielded @ [batch]) w1)"

definition stream_sensor_data ::
    "nat \<Rightarrow> SensorDatabaseReader \<Rightarrow> (string \<Rightarrow> error + 'r list) \<Rightarrow>
     string \<Rightarrow> int \<Rightarrow> string option \<Rightarrow> string option \<Rightarrow> world \<Rightarrow>
     ('r list list \<times> error option \<times> world) option" where
  "stream_sensor_data fuel self run table_name batch_size where_clause order_by w =
     stream_loop fuel self run table_name batch_size where_clause order_by 0 [] w"

section \<open>The pipeline controller (\<open>pipeline_controller.py\<close>)\<close>

datatype PipelineType =
    RAW | INGESTION | VALIDATED | SCHEMATIZED | ENRICHED | FILTERED | AGGREGATED
  | ANOMALY | ANOMALIES

fun type_value :: "PipelineType \<Rightarrow> string" where
  "type_value RAW = ''raw''"
| "type_value INGESTION = ''ingestion''"
| "type_value VALIDATED = ''validated''"
| "type_value SCHEMATIZED = ''schematized''"
| "type_value ENRICHED = ''enriched''"
| "type_value FILTERED = ''filtered''"
| "type_value AGGREGATED = ''aggregated''"
| "type_value ANOMALY = ''anomaly''"
| "type_value ANOMALIES = ''anomalies''"

text \<open>
  A row of the table \<open>pipeline_config\<close>; a column that may hold \<open>NULL\<close> is an option.
  A row is active when the SQL condition \<open>is_active = 1\<close> holds of it.
\<close>

record config_row =
  row_id :: int
  pipeline_type :: string
  created_at :: string
  created_by :: "string option"
  reason :: "string option"
  is_active :: "int option"

definition active :: "config_row \<Rightarrow> bool" where
  "active r = (is_active r = Some 1)"

definition count_active :: "config_row list \<Rightarrow> nat" where
  "count_active rs = length (filter active rs)"

text \<open>
  The rowid SQLite gives a new row: one more than the largest in use, or \<open>1\<close>.  (Once
  the largest is \<open>2^63 - 1\<close> the engine tries unused ids at random, a case the model
  leaves out.)
\<close>

fun next_id :: "config_row list \<Rightarrow> int" where
  "next_id [] = 1"
| "next_id (r # rs) = fold (\<lambda>x m. max (row_id x) m) rs (row_id r) + 1"

text \<open>
  \<open>_init_database\<close>, run to its end.  A database file that holds the table already is
  given by the table's column names and rows; \<open>None\<close> is a file without the table.
  \<open>migrate_columns\<close> is the part that adds the missing columns: adding \<open>is_active\<close>
  with \<open>DEFAULT 1\<close> makes every existing row read \<open>1\<close>.
\<close>

record config_table =
  columns :: "string list"
  table_rows :: "config_row list"

definition new_table :: config_table where
  "new_table =
     \<lparr>columns = [''id'', ''pipeline_type'', ''created_at'', ''created_by'', ''reason'',
                 ''is_active''],
      table_rows = []\<rparr>"

definition add_column ::
    "string \<Rightarrow> (config_row \<Rightarrow> config_row) \<Rightarrow> config_table \<Rightarrow> config_table" where
  "add_column name fill t =
     \<lparr>columns = columns t @ [name], table_rows = map fill (table_rows t)\<rparr>"

definition migrate_columns :: "config_table \<Rightarrow> config_table" where
  "migrate_columns t0 =
     (let t = (if ''created_by'' \<notin> set (columns t0)
               then add_column ''created_by'' (\<lambda>r. r\<lparr>created_by := None\<rparr>) t0 else t0);
          t = (if ''reason'' \<notin> set (columns t)
               then add_column ''reason'' (\<lambda>r. r\<lparr>reason := None\<rparr>) t else t);
          t = (if ''is_active'' \<notin> set (columns t)
               then (let t1 = add_column ''is_active'' (\<lambda>r. r\<lparr>is_active := Some 1\<rparr>) t
                     in t1\<lparr>table_rows :=
                            map (\<lambda>r. if is_active r = None then r\<lparr>is_active := Some 1\<rparr> else r)
                              (table_rows t1)\<rparr>)
               else t)
      in t)"

definition init_database :: "string \<Rightarrow> config_table option \<Rightarrow> config_table" where
  "init_database now file =
     (let t = migrate_columns (case file of None \<Rightarrow> new_table | Some t \<Rightarrow> t)
      in if count_active (table_rows t) = 0
         then t\<lparr>table_rows := table_rows t @
                  [\<lparr>row_id = next_id (table_rows t), pipeline_type = type_value RAW,
                    created_at = now, created_by = Some ''system'',
                    reason = Some ''Initial configuration'', is_active = Some 1\<rparr>]\<rparr>
         else t)"



text \<open>
  The state of an initialised controller's database: the rows of \<open>pipeline_config\<close>
  beside the engine's script, delays and log.
\<close>

record store = world +
  rows :: "config_row list"

text \<open>
  One attempt of \<open>set_pipeline\<close> or \<open>get_current_pipeline\<close> connects and runs its
  statements; \<open>attempt_fault\<close> takes the attempt's entry of the script, the exception one
  of these calls raises if any.  In \<open>set_pipeline\<close> every statement stands between
  \<open>BEGIN IMMEDIATE\<close> and \<open>commit\<close>, and an exception rolls the transaction back, so a
  failed attempt leaves the rows as they were.
\<close>

definition attempt_fault :: "store \<Rightarrow> error option \<times> store" where
  "attempt_fault w = sqlite_connect w"

text \<open>The \<open>UPDATE\<close> and the \<open>INSERT\<close> of \<open>set_pipeline\<close>.\<close>

definition deactivate_all :: "config_row list \<Rightarrow> config_row list" where
  "deactivate_all rs = map (\<lambda>r. if is_active r = Some 1 then r\<lparr>is_active := Some 0\<rparr> else r) rs"

definition insert_config ::
    "PipelineType \<Rightarrow> string option \<Rightarrow> string option \<Rightarrow> string \<Rightarrow> config_row list \<Rightarrow>
     config_row list" where
  "insert_config pt who why now rs =
     rs @ [\<lparr>row_id = next_id rs, pipeline_type = type_value pt, created_at = now,
             created_by = Some (case who of None \<Rightarrow> ''unknown''
                                | Some b \<Rightarrow> if b = [] then ''unknown'' else b),
             reason = why, is_active = Some 1\<rparr>]"

text \<open>
  \<open>set_pipeline\<close>: the loop over \<open>range(max_retries)\<close> with \<open>max_retries = 5\<close> and
  \<open>retry_delay = 0.1\<close>; the first argument of the loop counts the iterations left, and
  the statement after the loop returns \<open>False\<close>.
\<close>

fun set_pipeline_loop ::
    "nat \<Rightarrow> nat \<Rightarrow> PipelineType \<Rightarrow> string option \<Rightarrow> string option \<Rightarrow> string \<Rightarrow> store \<Rightarrow>
     (error + bool) \<times> store" where
  "set_pipeline_loop 0 attempt pt who why now w = (Inr False, w)"
| "set_pipeline_loop (Suc n) attempt pt who why now w =
     (case attempt_fault w of
        (None, w1) \<Rightarrow>
          (Inr True, w1\<lparr>rows := insert_config pt who why now (deactivate_all (rows w1))\<rparr>)
      | (Some e, w1) \<Rightarrow>
          (case e of
             OperationalError m \<Rightarrow>
               if py_in ''locked'' m \<and> int attempt < 5 - 1
               then set_pipeline_loop n (Suc attempt) pt who why now (sleep (0.1 * 2 ^ attempt) w1)
               else (Inl e, w1)
           | _ \<Rightarrow> (Inl e, w1)))"

definition set_pipeline ::
    "PipelineType \<Rightarrow> string option \<Rightarrow> string option \<Rightarrow> string \<Rightarrow> store \<Rightarrow>
     (error + bool) \<times> store" where
  "set_pipeline pt who why now w = set_pipeline_loop 5 0 pt who why now w"

text \<open>
  \<open>get_current_pipeline\<close>: the active row of largest \<open>id\<close>, or the default record built
  in memory.
\<close>

record current_config =
  cfg_pipeline_type :: string
  cfg_created_at :: string
  cfg_created_by :: "string option"
  cfg_reason :: "string option"

fun latest_active :: "config_row list \<Rightarrow> config_row option" where
  "latest_active [] = None"
| "latest_active (r # rs) =
     (case latest_active rs of
        None \<Rightarrow> if active r then Some r else None
      | Some b \<Rightarrow> if active r \<and> row_id b < row_id r then Some r else Some b)"

fun get_current_pipeline_loop :: "nat \<Rightarrow> nat \<Rightarrow> string \<Rightarrow> store \<Rightarrow> (error + current_config) \<times> store" where
  "get_current_pipeline_loop 0 attempt now w =
     (Inl (RuntimeError ''Failed to read pipeline configuration after multiple attempts''), w)"
| "get_current_pipeline_loop (Suc n) attempt now w =
     (case attempt_fault w of
        (None, w1) \<Rightarrow>
          (case latest_active (rows w1) of
             Some r \<Rightarrow>
               (Inr \<lparr>cfg_pipeline_type = pipeline_type r, cfg_created_at = created_at r,
                     cfg_created_by = created_by r, cfg_reason = reason r\<rparr>, w1)
           | None \<Rightarrow>
               (Inr \<lparr>cfg_pipeline_type = type_value RAW, cfg_created_at = now,
                     cfg_created_by = Some ''system'',
                     cfg_reason = Some ''Default configuration''\<rparr>, w1))
      | (Some e, w1) \<Rightarrow>
          (case e of
             OperationalError m \<Rightarrow>
               if py_in ''locked'' m \<and> int attempt < 5 - 1
               then get_current_pipeline_loop n (Suc attempt) now (sleep (0.1 * 2 ^ attempt) w1)
               else (Inl e, w1)
           | _ \<Rightarrow> (Inl e, w1)))"

definition get_current_pipeline :: "string \<Rightarrow> store \<Rightarrow> (error + current_config) \<times> store" where
  "get_current_pipeline now w = get_current_pipeline_loop 5 0 now w"


section \<open>Notions used to state the properties\<close>

text \<open>A list cut into consecutive pieces of \<open>b\<close> elements, the last one possibly shorter.\<close>

function chunks :: "nat \<Rightarrow> 'a list \<Rightarrow> 'a list list" where
  "chunks b xs = (if b = 0 \<or> xs = [] then [] else take b xs # chunks b (drop b xs))"
  by pat_completeness auto
termination
  by (relation "measure (\<lambda>(b, xs). length xs)") auto

text \<open>
  The text of a paginated statement in SQL's own words: the statement \<open>base\<close> followed
  by \<open>LIMIT batch_size\<close>, and from the second page on by \<open>OFFSET\<close> with the number of
  rows before page \<open>i\<close>.
\<close>

definition page_query :: "string \<Rightarrow> int \<Rightarrow> nat \<Rightarrow> string" where
  "page_query base batch_size i =
     base @ '' LIMIT '' @ str_int batch_size @
     (if i = 0 then [] else '' OFFSET '' @ str_int (int i * batch_size))"

text \<open>
  An engine paginates the statement \<open>base\<close>, whose rows are \<open>rs\<close>, when its answer to
  each page that starts within \<open>rs\<close> is that page of \<open>rs\<close>.  SQLite does so when \<open>base\<close>
  is a complete \<open>SELECT\<close> (its text does not end in a comment or an open literal that
  would swallow the appended clauses), the numbers fit its 64-bit integers and the
  table does not change between the reads.
\<close>

definition paginates :: "(string \<Rightarrow> error + 'r list) \<Rightarrow> string \<Rightarrow> int \<Rightarrow> 'r list \<Rightarrow> bool" where
  "paginates run base batch_size rs =
     (run base = Inr rs \<and>
      (\<forall>i. i * nat batch_size \<le> length rs \<longrightarrow>
           run (page_query base batch_size i) =
             Inr (take (nat batch_size) (drop (i * nat batch_size) rs))))"

text \<open>
  The log of \<open>n\<close> successful reads of \<open>stream_sensor_data\<close>, the first of page \<open>k\<close>:
  each connects, executes the text of its page and closes.
\<close>

definition reads_log :: "string \<Rightarrow> int \<Rightarrow> nat \<Rightarrow> nat \<Rightarrow> event list" where
  "reads_log base batch_size k n =
     concat (map (\<lambda>i. [Connect, Execute (page_query base batch_size i), Close]) [k..<k + n])"

text \<open>
  An engine for the test suite's table of five rows: it answers the unpaginated
  statement and its pages of two rows, and rejects every other text.
\<close>

definition five_rows :: "string list" where
  "five_rows = [''r5'', ''r4'', ''r3'', ''r2'', ''r1'']"

definition five_row_engine :: "string \<Rightarrow> error + string list" where
  "five_row_engine q =
     (if q = ''SELECT * FROM sensor_readings ORDER BY timestamp DESC'' then Inr five_rows
      else if q = ''SELECT * FROM sensor_readings ORDER BY timestamp DESC LIMIT 2''
        then Inr (take 2 five_rows)
      else if q = ''SELECT * FROM sensor_readings ORDER BY timestamp DESC LIMIT 2 OFFSET 2''
        then Inr (take 2 (drop 2 five_rows))
      else if q = ''SELECT * FROM sensor_readings ORDER BY timestamp DESC LIMIT 2 OFFSET 4''
        then Inr (take 2 (drop 4 five_rows))
      else Inl (OperationalError ''syntax error''))"

text \<open>
  White space among the code points below 256, by its ranges: the controls from tab to
  carriage return, the separators \<open>0x1C\<close> to \<open>0x1F\<close> with the space after them, the
  next-line character and the no-break space.
\<close>

definition white_space :: "char \<Rightarrow> bool" where
  "white_space c =
     ((9 \<le> (of_char c :: nat) \<and> (of_char c :: nat) \<le> 13) \<or>
      (28 \<le> (of_char c :: nat) \<and> (of_char c :: nat) \<le> 32) \<or>
      (of_char c :: nat) = 133 \<or> (of_char c :: nat) = 160)"

text \<open>
  The guard of \<open>read_with_query\<close> in the words of the specification: after the leading
  white space the query goes on with the six letters of \<open>SELECT\<close>, each in either case.
\<close>

definition leading_select :: "string \<Rightarrow> bool" where
  "leading_select q =
     list_all2 (\<lambda>c u. c = u \<or> (of_char c :: nat) = of_char u + 32)
       (take 6 (dropWhile white_space q)) ''SELECT''"

text \<open>
  Transient lock contention as \<open>set_pipeline\<close> and \<open>get_current_pipeline\<close> recognise it,
  and the delays of \<open>k\<close> retries.
\<close>

definition transient :: "error \<Rightarrow> bool" where
  "transient e = (case e of OperationalError m \<Rightarrow> py_in ''locked'' m | _ \<Rightarrow> False)"

definition backoff :: "nat \<Rightarrow> real list" where
  "backoff k = map (\<lambda>i. 0.1 * 2 ^ i) [0..<k]"

section \<open>Properties of the phase router\<close>


lemma split_loop_passthrough:
  "current_pipeline_type self \<noteq> ''schematized'' \<Longrightarrow> current_pipeline_type self \<noteq> ''validated'' \<Longrightarrow>
   split_loop py_str parse self data valid_records invalid_records
     = Inr (valid_records @ data, invalid_records)"
  by (induction data arbitrary: valid_records) simp_all

text \<open>
  Claim C4.  In every phase other than \<open>schematized\<close> and \<open>validated\<close>, that is in
  \<open>raw\<close>, \<open>aggregated\<close>, \<open>anomaly\<close> and under every name the router does not
  recognise, the router returns the input batch itself as the valid list, in the same
  order and untransformed, and an empty invalid list.
\<close>

theorem passthrough_phases:
  assumes "current_pipeline_type self \<noteq> ''schematized''"
      and "current_pipeline_type self \<noteq> ''validated''"
  shows "validate_and_split_data py_str parse self data = Inr (data, [])"
  using assms by (simp add: validate_and_split_data_def split_loop_passthrough)

text \<open>
  The phase \<open>raw\<close> and the unrecognised phase \<open>unknown_type\<close> of the test suite, on
  out-of-range data.
\<close>

theorem passthrough_phases_witness:
  "\<forall>py_str parse.
     validate_and_split_data py_str parse
       \<lparr>current_pipeline_type = ''raw'', node_id = ''test-node-001''\<rparr>
       [[(''id'', PInt 1), (''temperature'', PFloat (Finite (-50))), (''humidity'', PFloat (Finite 150))],
        [(''id'', PInt 2)]]
     = Inr ([[(''id'', PInt 1), (''temperature'', PFloat (Finite (-50))), (''humidity'', PFloat (Finite 150))],
             [(''id'', PInt 2)]], []) \<and>
     validate_and_split_data py_str parse
       \<lparr>current_pipeline_type = ''unknown_type'', node_id = ''test-node-001''\<rparr>
       [[(''id'', PInt 1), (''temperature'', PFloat (Finite (-50))), (''humidity'', PFloat (Finite 150))],
        [(''id'', PInt 2)]]
     = Inr ([[(''id'', PInt 1), (''temperature'', PFloat (Finite (-50))), (''humidity'', PFloat (Finite 150))],
             [(''id'', PInt 2)]], [])"
  using passthrough_phases
    [of "\<lparr>current_pipeline_type = ''raw'', node_id = ''test-node-001''\<rparr>"]
    passthrough_phases
    [of "\<lparr>current_pipeline_type = ''unknown_type'', node_id = ''test-node-001''\<rparr>"]
  by simp




lemma transform_fields:
  "dict_get_default (mock_transform_to_turbine_schema py_str self r) ''temperature'' d = dict_get r ''temperature''"
  "dict_get_default (mock_transform_to_turbine_schema py_str self r) ''humidity'' d = dict_get r ''humidity''"
  "dict_get (mock_transform_to_turbine_schema py_str self r) ''temperature'' = dict_get r ''temperature''"
  "dict_get (mock_transform_to_turbine_schema py_str self r) ''humidity'' = dict_get r ''humidity''"
  by (simp_all add: mock_transform_to_turbine_schema_def dict_get_def dict_get_default_def)









text \<open>
  An integer too large for a float, evaluated: \<open>float\<close> raises \<open>OverflowError\<close>, which
  \<open>_mock_validate_record\<close> does not catch, and the call ends with it.
\<close>

lemma overflow_is_raised:
  "validate_and_split_data py_str parse
     \<lparr>current_pipeline_type = ''validated'', node_id = ''test-node-001''\<rparr>
     [[(''id'', PInt 1), (''temperature'', PInt (2 ^ 1024)), (''humidity'', PFloat (Finite 50))]]
   = Inl OverflowError"
  by (simp add: validate_and_split_data_def mock_validate_record_def transform_fields
        coerce_float_def dict_get_def Let_def)

section \<open>Properties of the transformation hash\<close>

lemma sort_keys_same:
  assumes "distinct xs" and "distinct ys" and "set xs = set ys"
  shows "sort xs = sort (ys :: string list)"
proof (rule sorted_distinct_set_unique)
  show "sorted (sort xs)" by simp
  show "distinct (sort xs)" using assms(1) by simp
  show "sorted (sort ys)" by simp
  show "distinct (sort ys)" using assms(2) by simp
  show "set (sort xs) = set (sort ys)" using assms(3) by simp
qed

text \<open>
  Claim C7.  Two configuration dictionaries with the same set of keys get the same
  transformation hash for the same phase and pipeline version, whatever their values
  are: the hash is computed from the phase, the version and the sorted key names only.
\<close>

theorem hash_ignores_values:
  assumes "distinct (map fst config1)" and "distinct (map fst config2)"
      and "set (map fst config1) = set (map fst config2)"
  shows "generate_transformation_hash sha256_hex json_str environ pt config1 =
         generate_transformation_hash sha256_hex json_str environ pt config2"
  unfolding generate_transformation_hash_def Let_def
  using sort_keys_same[OF assms] by simp

text \<open>Two configurations with the keys in different order and different values.\<close>

theorem hash_ignores_values_witness:
  "\<forall>sha256_hex json_str environ.
     generate_transformation_hash sha256_hex json_str environ ''validated''
       [(''schema_url'', PStr ''https://example.com/schema.json''), (''api_key'', PStr ''s3cret'')] =
     generate_transformation_hash sha256_hex json_str environ ''validated''
       [(''api_key'', PInt 42), (''schema_url'', PNone)]"
  using hash_ignores_values
    [of "[(''schema_url'', PStr ''https://example.com/schema.json''), (''api_key'', PStr ''s3cret'')]"
        "[(''api_key'', PInt 42), (''schema_url'', PNone)]"]
  by auto

section \<open>Properties of the sensor database reader\<close>

subsection \<open>A healthy connection\<close>

lemma get_connection_healthy:
  assumes "faults w = []" and "0 < max_retries (config self)"
      and "body (w\<lparr>db_log := db_log w @ [Connect]\<rparr>) = (Inr v, w2)"
  shows "get_connection self body w = (Inr v, sqlite_close w2)"
proof -
  obtain n where n: "nat (max_retries (config self)) = Suc n"
    using assms(2) by (cases "nat (max_retries (config self))") auto
  show ?thesis
    using assms(1,3) by (simp add: get_connection_def n sqlite_connect_def)
qed

lemma sqlite_execute_healthy:
  "faults w = [] \<Longrightarrow>
   sqlite_execute sql answer w = (answer, w\<lparr>db_log := db_log w @ [Execute sql]\<rparr>)"
  by (simp add: sqlite_execute_def)

lemma read_sensor_data_healthy:
  assumes "faults w = []" and "0 < max_retries (config self)"
      and "run (build_query t wc ob lmt off) = Inr rs"
  shows "read_sensor_data self run t wc ob lmt off w =
           (Inr rs, w\<lparr>db_log := db_log w @
                            [Connect, Execute (build_query t wc ob lmt off), Close]\<rparr>)"
proof -
  let ?body = "\<lambda>w1. sqlite_execute (build_query t wc ob lmt off)
                (run (build_query t wc ob lmt off)) w1"
  have b: "?body (w\<lparr>db_log := db_log w @ [Connect]\<rparr>)
           = (Inr rs, w\<lparr>db_log := db_log w @ [Connect, Execute (build_query t wc ob lmt off)]\<rparr>)"
    using assms by (simp add: sqlite_execute_healthy)
  show ?thesis
    unfolding read_sensor_data_def
    using assms get_connection_healthy[of w self ?body rs, OF _ _ b]
    by (simp add: sqlite_close_def)
qed

subsection \<open>The guard of \<open>read_with_query\<close>\<close>

text \<open>
  The test \<open>query.strip().upper().startswith("SELECT")\<close> holds exactly of the queries
  that go on, after their leading white space, with the letters of \<open>SELECT\<close> in either
  case; what \<open>str.strip\<close> removes is the white space of the range.  No other character of the range has one of these letters as its upper case;
  the sharp s, whose upper case \<open>SS\<close> begins with \<open>S\<close>, does not pass either.
\<close>

lemma select_code_points: "map of_char ''SELECT'' = [83, 69, 76, 69, 67, 84 :: nat]"
  by simp

lemma startswith_Nil [simp]: "startswith xs []"
  by (simp add: startswith_def)

lemma startswith_Cons:
  "startswith (x # xs) (p # ps) = (x = p \<and> startswith xs ps)"
  by (simp add: startswith_def)

lemma startswith_Nil_Cons [simp]: "\<not> startswith [] (p # ps)"
  by (simp add: startswith_def)

lemma upper_letter:
  assumes "t \<in> {83, 69, 76, 67, 84}"
  shows "(upper_code_points n = [t]) = (n = t \<or> n = t + 32)"
  using assms by (auto simp: upper_code_points_def)

lemma upper_prefix_letters:
  "\<forall>t\<in>set ts. t \<in> {69, 76, 67, 84} \<Longrightarrow>
   startswith (concat (map upper_code_points ns)) ts =
     list_all2 (\<lambda>n t. n = t \<or> n = t + 32) (take (length ts) ns) ts"
proof (induction ts arbitrary: ns)
  case Nil
  show ?case by simp
next
  case (Cons t ts)
  have t: "t \<in> {69, 76, 67, 84}" and rest: "\<forall>t\<in>set ts. t \<in> {69, 76, 67, 84}"
    using Cons.prems by simp_all
  show ?case
  proof (cases ns)
    case Nil
    then show ?thesis by simp
  next
    case (Cons n ns')
    show ?thesis
    proof (cases "n = 223")
      case True
      then show ?thesis
        using t Cons by (auto simp: upper_code_points_def startswith_Cons)
    next
      case False
      then have "\<exists>m. upper_code_points n = [m]"
        by (simp add: upper_code_points_def)
      then obtain m where m: "upper_code_points n = [m]" by blast
      have "(m = t) = (n = t \<or> n = t + 32)"
        using upper_letter[of t n] t m by auto
      then show ?thesis
        using Cons m Cons.IH[OF rest, of ns'] by (simp add: startswith_Cons)
    qed
  qed
qed

lemma upper_prefix_select:
  "startswith (concat (map upper_code_points ns)) [83, 69, 76, 69, 67, 84] =
     list_all2 (\<lambda>n t. n = t \<or> n = t + 32) (take 6 ns) [83, 69, 76, 69, 67, 84]"
proof (cases ns)
  case Nil
  then show ?thesis by simp
next
  case (Cons n ns')
  have l5: "length [69, 76, 69, 67, 84 :: nat] = 5" by simp
  have pre: "\<forall>t\<in>set [69, 76, 69, 67, 84 :: nat]. t \<in> {69, 76, 67, 84}" by simp
  have tl: "startswith (concat (map upper_code_points ns')) [69, 76, 69, 67, 84] =
     list_all2 (\<lambda>n t. n = t \<or> n = t + 32) (take 5 ns') [69, 76, 69, 67, 84]"
    using upper_prefix_letters[OF pre, of ns'] unfolding l5 .
  show ?thesis
  proof (cases "n = 223")
    case True
    then show ?thesis
      using Cons by (simp add: upper_code_points_def startswith_Cons)
  next
    case False
    then have "\<exists>m. upper_code_points n = [m]"
      by (simp add: upper_code_points_def)
    then obtain m where m: "upper_code_points n = [m]" by blast
    have "(m = 83) = (n = 83 \<or> n = 83 + 32)"
      using upper_letter[of 83 n] m by auto
    then show ?thesis
      using Cons m tl by (simp add: startswith_Cons)
  qed
qed

lemma list_all2_witness:
  "list_all2 P xs ys \<Longrightarrow> x \<in> set xs \<Longrightarrow> \<exists>y\<in>set ys. P x y"
  by (induction rule: list_all2_induct) auto

lemma select_letter_no_space:
  "u \<in> set ''SELECT'' \<Longrightarrow> c = u \<or> (of_char c :: nat) = of_char u + 32 \<Longrightarrow> \<not> py_isspace c"
  by (auto simp: py_isspace_def)

lemma strip_split:
  "\<exists>ws. dropWhile py_isspace q = py_strip q @ ws \<and> (\<forall>c\<in>set ws. py_isspace c)"
proof -
  let ?body = "dropWhile py_isspace q"
  have "rev ?body = takeWhile py_isspace (rev ?body) @ dropWhile py_isspace (rev ?body)"
    by simp
  then have "?body = rev (dropWhile py_isspace (rev ?body)) @ rev (takeWhile py_isspace (rev ?body))"
    by (metis rev_append rev_rev_ident)
  moreover have "\<forall>c\<in>set (rev (takeWhile py_isspace (rev ?body))). py_isspace c"
    by (auto dest: set_takeWhileD)
  ultimately show ?thesis
    unfolding py_strip_def by blast
qed

lemma strip_keeps_select:
  "list_all2 (\<lambda>c u. c = u \<or> (of_char c :: nat) = of_char u + 32) (take 6 (py_strip q)) ''SELECT'' =
   list_all2 (\<lambda>c u. c = u \<or> (of_char c :: nat) = of_char u + 32)
     (take 6 (dropWhile py_isspace q)) ''SELECT''"
  (is "list_all2 ?R (take 6 ?s) _ = list_all2 ?R (take 6 ?b) _")
proof -
  obtain ws where b: "?b = ?s @ ws" and ws: "\<forall>c\<in>set ws. py_isspace c"
    using strip_split[of q] by blast
  show ?thesis
  proof (cases "6 \<le> length ?s")
    case True
    then show ?thesis by (simp add: b)
  next
    case False
    then have short: "length (take 6 ?s) < 6" by simp
    have l: "\<not> list_all2 ?R (take 6 ?s) ''SELECT''"
      using short by (auto dest: list_all2_lengthD)
    have r: "\<not> list_all2 ?R (take 6 ?b) ''SELECT''"
    proof
      assume a: "list_all2 ?R (take 6 ?b) ''SELECT''"
      then have "length (take 6 ?b) = 6" by (auto dest: list_all2_lengthD)
      then have "6 \<le> length ?s + length ws" by (simp add: b)
      then have "ws \<noteq> []" using False by auto
      moreover obtain k where "6 - length ?s = Suc k"
        using False by (cases "6 - length ?s") auto
      ultimately have "hd ws \<in> set (take 6 ?b)"
        by (cases ws) (simp_all add: b)
      then obtain u where "u \<in> set ''SELECT''" "?R (hd ws) u"
        using list_all2_witness[OF a] by blast
      then have "\<not> py_isspace (hd ws)" by (rule select_letter_no_space)
      then show False using ws \<open>ws \<noteq> []\<close> by auto
    qed
    show ?thesis using l r by simp
  qed
qed

lemma isspace_white_space: "py_isspace = white_space"
proof
  fix c
  define n where "n = (of_char c :: nat)"
  have "(n \<in> {9, 10, 11, 12, 13, 28, 29, 30, 31, 32, 133, 160}) =
        ((9 \<le> n \<and> n \<le> 13) \<or> (28 \<le> n \<and> n \<le> 32) \<or> n = 133 \<or> n = 160)"
    by auto
  then show "py_isspace c = white_space c"
    by (simp add: py_isspace_def white_space_def n_def)
qed

lemma guard_is_leading_select:
  "startswith (py_upper (py_strip q)) (map of_char ''SELECT'') = leading_select q"
proof -
  have "startswith (py_upper (py_strip q)) (map of_char ''SELECT'') =
        list_all2 (\<lambda>n t. n = t \<or> n = t + 32) (take 6 (map of_char (py_strip q)))
          (map of_char ''SELECT'' :: nat list)"
    unfolding py_upper_def select_code_points
    using upper_prefix_select[of "map of_char (py_strip q)"] by (simp add: comp_def)
  also have "\<dots> = list_all2 (\<lambda>c u. c = u \<or> (of_char c :: nat) = of_char u + 32)
                     (take 6 (py_strip q)) ''SELECT''"
    by (simp only: take_map list_all2_map1 list_all2_map2 of_char_eq_iff)
  also have "\<dots> = leading_select q"
    unfolding leading_select_def isspace_white_space[symmetric] by (rule strip_keeps_select)
  finally show ?thesis .
qed

lemma guard_code_points:
  "startswith (py_upper (py_strip q)) [83, 69, 76, 69, 67, 84] = leading_select q"
  using guard_is_leading_select[of q] by (simp only: select_code_points)

text \<open>
  Claim C5.  A query whose text does not go on, after its leading whitespace, with
  \<open>SELECT\<close> in either case is rejected with the \<open>ValueError\<close>, and the world stays as it
  was: no connection is opened and nothing is executed.  A query that does is not
  rejected: the call is the execution of the query under \<open>get_connection\<close>, and with a
  healthy engine the query is executed as given and its rows are returned.  Whitespace
  is what \<open>str.strip\<close> removes, the no-break space and the next-line character
  included; the leading keyword is read off the first six characters, so a longer word
  beginning with \<open>SELECT\<close> passes the guard as well.
\<close>

theorem read_with_query_select_only:
  "(\<not> leading_select query \<longrightarrow>
      read_with_query self run_sql query params w =
        (Inl (ValueErrorMsg ''Only SELECT queries are allowed on sensor database''), w)) \<and>
   (leading_select query \<longrightarrow>
      read_with_query self run_sql query params w =
        get_connection self
          (\<lambda>w1. sqlite_execute query
                   (run_sql query (case params of None \<Rightarrow> [] | Some ps \<Rightarrow> ps)) w1) w) \<and>
   (leading_select query \<and> faults w = [] \<and> 0 < max_retries (config self) \<and>
    run_sql query (case params of None \<Rightarrow> [] | Some ps \<Rightarrow> ps) = Inr rs \<longrightarrow>
      read_with_query self run_sql query params w =
        (Inr rs, w\<lparr>db_log := db_log w @ [Connect, Execute query, Close]\<rparr>))"
proof (intro conjI impI)
  assume "\<not> leading_select query"
  then show "read_with_query self run_sql query params w =
        (Inl (ValueErrorMsg ''Only SELECT queries are allowed on sensor database''), w)"
    by (simp add: read_with_query_def guard_code_points)
next
  assume "leading_select query"
  then show "read_with_query self run_sql query params w =
        get_connection self
          (\<lambda>w1. sqlite_execute query
                   (run_sql query (case params of None \<Rightarrow> [] | Some ps \<Rightarrow> ps)) w1) w"
    by (simp add: read_with_query_def guard_code_points)
next
  assume a: "leading_select query \<and> faults w = [] \<and>
    0 < max_retries (config self) \<and>
    run_sql query (case params of None \<Rightarrow> [] | Some ps \<Rightarrow> ps) = Inr rs"
  let ?body = "\<lambda>w1. sqlite_execute query
                   (run_sql query (case params of None \<Rightarrow> [] | Some ps \<Rightarrow> ps)) w1"
  have b: "?body (w\<lparr>db_log := db_log w @ [Connect]\<rparr>)
           = (Inr rs, w\<lparr>db_log := db_log w @ [Connect, Execute query]\<rparr>)"
    using a by (simp add: sqlite_execute_healthy)
  have "get_connection self ?body w
          = (Inr rs, sqlite_close (w\<lparr>db_log := db_log w @ [Connect, Execute query]\<rparr>))"
    using a get_connection_healthy[of w self ?body rs, OF _ _ b] by simp
  then show "read_with_query self run_sql query params w =
        (Inr rs, w\<lparr>db_log := db_log w @ [Connect, Execute query, Close]\<rparr>)"
    using a by (simp add: read_with_query_def guard_code_points sqlite_close_def)
qed

lemma update_is_no_select:
  "\<not> leading_select ''UPDATE sensor_readings SET value = 0''"
  by code_simp

lemma lower_case_select:
  "leading_select ''  select DISTINCT turbine_id FROM sensor_readings ''"
  by code_simp

lemma no_break_space_select:
  "leading_select (CHR 0xA0 # ''SELECT 1 AS x'')"
  by code_simp

text \<open>
  The two statements of the test suite, the second in lower case between blanks, and a
  statement after a no-break space, on a reader with the default configuration and an
  engine that answers with three rows.
\<close>

theorem read_with_query_select_only_witness:
  "read_with_query
     \<lparr>db_path = ''/data/sensor_data.db'', config = default_reader_config,
       connection_string = ''file:/data/sensor_data.db?mode=ro''\<rparr>
     (\<lambda>q ps. Inr [''T001'', ''T002'', ''T003''])
     ''UPDATE sensor_readings SET value = 0'' None
     \<lparr>faults = [], slept = [], db_log = []\<rparr>
   = (Inl (ValueErrorMsg ''Only SELECT queries are allowed on sensor database''),
      \<lparr>faults = [], slept = [], db_log = []\<rparr>) \<and>
   read_with_query
     \<lparr>db_path = ''/data/sensor_data.db'', config = default_reader_config,
       connection_string = ''file:/data/sensor_data.db?mode=ro''\<rparr>
     (\<lambda>q ps. Inr [''T001'', ''T002'', ''T003''])
     ''  select DISTINCT turbine_id FROM sensor_readings '' None
     \<lparr>faults = [], slept = [], db_log = []\<rparr>
   = (Inr [''T001'', ''T002'', ''T003''],
      \<lparr>faults = [], slept = [],
        db_log = [Connect, Execute ''  select DISTINCT turbine_id FROM sensor_readings '',
                  Close]\<rparr>) \<and>
   read_with_query
     \<lparr>db_path = ''/data/sensor_data.db'', config = default_reader_config,
       connection_string = ''file:/data/sensor_data.db?mode=ro''\<rparr>
     (\<lambda>q ps. Inr [''T001'', ''T002'', ''T003''])
     (CHR 0xA0 # ''SELECT 1 AS x'') None
     \<lparr>faults = [], slept = [], db_log = []\<rparr>
   = (Inr [''T001'', ''T002'', ''T003''],
      \<lparr>faults = [], slept = [],
        db_log = [Connect, Execute (CHR 0xA0 # ''SELECT 1 AS x''), Close]\<rparr>)"
proof -
  let ?self = "\<lparr>db_path = ''/data/sensor_data.db'', config = default_reader_config,
       connection_string = ''file:/data/sensor_data.db?mode=ro''\<rparr>"
  let ?run = "\<lambda>(q :: string) (ps :: pyval list). (Inr [''T001'', ''T002'', ''T003''] :: error + string list)"
  let ?w = "\<lparr>faults = [], slept = [], db_log = []\<rparr>"
  have 1: "read_with_query ?self ?run ''UPDATE sensor_readings SET value = 0'' None ?w
           = (Inl (ValueErrorMsg ''Only SELECT queries are allowed on sensor database''), ?w)"
    using read_with_query_select_only
      [of "''UPDATE sensor_readings SET value = 0''" ?self ?run None ?w, THEN conjunct1]
      update_is_no_select by blast
  have ok: "leading_select ''  select DISTINCT turbine_id FROM sensor_readings '' \<and>
            faults ?w = [] \<and> 0 < max_retries (config ?self) \<and>
            ?run ''  select DISTINCT turbine_id FROM sensor_readings ''
              (case None of None \<Rightarrow> [] | Some ps \<Rightarrow> ps) = Inr [''T001'', ''T002'', ''T003'']"
    using lower_case_select by (simp add: default_reader_config_def)
  have 2: "read_with_query ?self ?run ''  select DISTINCT turbine_id FROM sensor_readings '' None ?w
           = (Inr [''T001'', ''T002'', ''T003''],
              ?w\<lparr>db_log := db_log ?w @
                   [Connect, Execute ''  select DISTINCT turbine_id FROM sensor_readings '', Close]\<rparr>)"
    using read_with_query_select_only
      [of "''  select DISTINCT turbine_id FROM sensor_readings ''" ?self ?run None ?w
          "[''T001'', ''T002'', ''T003'']", THEN conjunct2, THEN conjunct2, THEN mp, OF ok] .
  have ok3: "leading_select (CHR 0xA0 # ''SELECT 1 AS x'') \<and>
            faults ?w = [] \<and> 0 < max_retries (config ?self) \<and>
            ?run (CHR 0xA0 # ''SELECT 1 AS x'')
              (case None of None \<Rightarrow> [] | Some ps \<Rightarrow> ps) = Inr [''T001'', ''T002'', ''T003'']"
    using no_break_space_select by (simp add: default_reader_config_def)
  have 3: "read_with_query ?self ?run (CHR 0xA0 # ''SELECT 1 AS x'') None ?w
           = (Inr [''T001'', ''T002'', ''T003''],
              ?w\<lparr>db_log := db_log ?w @
                   [Connect, Execute (CHR 0xA0 # ''SELECT 1 AS x''), Close]\<rparr>)"
    using read_with_query_select_only
      [of "CHR 0xA0 # ''SELECT 1 AS x''" ?self ?run None ?w
          "[''T001'', ''T002'', ''T003'']", THEN conjunct2, THEN conjunct2, THEN mp, OF ok3] .
  show ?thesis using 1 2 3 by simp
qed

text \<open>
  The guard looks at nothing after the keyword: a statement that begins with \<open>SELECT\<close>
  and goes on with a second statement passes it, and so does a word that only begins
  with these letters.  A sharp s in the place of the \<open>S\<close> does not pass.
\<close>

lemma guard_looks_at_six_characters:
  "leading_select ''SELECT 1; DROP TABLE sensor_readings''"
  "leading_select ''selected''"
  "\<not> leading_select (CHR 0xDF # ''ELECT 1'')"
  "\<not> startswith (py_upper (py_strip (CHR 0xDF # ''ELECT 1''))) (map of_char ''SELECT'')"
  by code_simp+

subsection \<open>Zero as limit or offset\<close>

lemma build_query_zero:
  "build_query t wc ob (Some 0) off = build_query t wc ob None off"
  "build_query t wc ob lmt (Some 0) = build_query t wc ob lmt None"
  by (simp_all add: build_query_def)

text \<open>
  Claim C10.  \<open>read_sensor_data\<close> with \<open>limit=0\<close> does what it does with the limit
  omitted, and with \<open>offset=0\<close> what it does with the offset omitted.  With both zero
  the query text is the plain \<open>SELECT\<close> with its \<open>WHERE\<close> and \<open>ORDER BY\<close> clauses and no
  \<open>LIMIT\<close> or \<open>OFFSET\<close> appended, and with a healthy engine the call returns every row
  the engine gives for that unpaginated text.
\<close>

theorem read_limit_offset_zero:
  "read_sensor_data self run t wc ob (Some 0) off w =
     read_sensor_data self run t wc ob None off w \<and>
   read_sensor_data self run t wc ob lmt (Some 0) w =
     read_sensor_data self run t wc ob lmt None w \<and>
   build_query t wc ob (Some 0) (Some 0) =
     ''SELECT * FROM '' @ t @
     (case wc of Some c \<Rightarrow> if c \<noteq> [] then '' WHERE '' @ c else [] | None \<Rightarrow> []) @
     '' ORDER BY '' @
     (case ob of Some b \<Rightarrow> if b \<noteq> [] then b else ''timestamp DESC''
      | None \<Rightarrow> ''timestamp DESC'') \<and>
   (faults w = [] \<and> 0 < max_retries (config self) \<and>
    run (''SELECT * FROM '' @ t @
         (case wc of Some c \<Rightarrow> if c \<noteq> [] then '' WHERE '' @ c else [] | None \<Rightarrow> []) @
         '' ORDER BY '' @
         (case ob of Some b \<Rightarrow> if b \<noteq> [] then b else ''timestamp DESC''
          | None \<Rightarrow> ''timestamp DESC'')) = Inr rs \<longrightarrow>
      fst (read_sensor_data self run t wc ob (Some 0) (Some 0) w) = Inr rs)"
proof (intro conjI impI)
  show "read_sensor_data self run t wc ob (Some 0) off w =
     read_sensor_data self run t wc ob None off w"
    by (simp add: read_sensor_data_def build_query_zero)
  show "read_sensor_data self run t wc ob lmt (Some 0) w =
     read_sensor_data self run t wc ob lmt None w"
    by (simp add: read_sensor_data_def build_query_zero)
  show q: "build_query t wc ob (Some 0) (Some 0) =
     ''SELECT * FROM '' @ t @
     (case wc of Some c \<Rightarrow> if c \<noteq> [] then '' WHERE '' @ c else [] | None \<Rightarrow> []) @
     '' ORDER BY '' @
     (case ob of Some b \<Rightarrow> if b \<noteq> [] then b else ''timestamp DESC''
      | None \<Rightarrow> ''timestamp DESC'')"
    by (simp add: build_query_def split: option.splits)
  assume a: "faults w = [] \<and> 0 < max_retries (config self) \<and>
    run (''SELECT * FROM '' @ t @
         (case wc of Some c \<Rightarrow> if c \<noteq> [] then '' WHERE '' @ c else [] | None \<Rightarrow> []) @
         '' ORDER BY '' @
         (case ob of Some b \<Rightarrow> if b \<noteq> [] then b else ''timestamp DESC''
          | None \<Rightarrow> ''timestamp DESC'')) = Inr rs"
  then have "run (build_query t wc ob (Some 0) (Some 0)) = Inr rs"
    by (simp only: q)
  then show "fst (read_sensor_data self run t wc ob (Some 0) (Some 0) w) = Inr rs"
    using a by (simp add: read_sensor_data_healthy)
qed

text \<open>
  The test suite's table of five rows read with \<open>limit=0\<close> and \<open>offset=0\<close>: all five
  come back.
\<close>

theorem read_limit_offset_zero_witness:
  "fst (read_sensor_data
     \<lparr>db_path = ''/data/sensor_data.db'', config = default_reader_config,
       connection_string = ''file:/data/sensor_data.db?mode=ro''\<rparr>
     five_row_engine ''sensor_readings'' None None (Some 0) (Some 0)
     \<lparr>faults = [], slept = [], db_log = []\<rparr>) = Inr five_rows"
proof -
  let ?self = "\<lparr>db_path = ''/data/sensor_data.db'', config = default_reader_config,
       connection_string = ''file:/data/sensor_data.db?mode=ro''\<rparr>"
  let ?w = "\<lparr>faults = [], slept = [], db_log = []\<rparr>"
  have ok: "faults ?w = [] \<and> 0 < max_retries (config ?self) \<and>
     five_row_engine
       (''SELECT * FROM '' @ ''sensor_readings'' @
        (case None of Some c \<Rightarrow> if c \<noteq> [] then '' WHERE '' @ c else [] | None \<Rightarrow> []) @
        '' ORDER BY '' @
        (case None of Some b \<Rightarrow> if b \<noteq> [] then b else ''timestamp DESC''
         | None \<Rightarrow> ''timestamp DESC'')) = Inr five_rows"
    by (simp add: default_reader_config_def five_row_engine_def)
  show ?thesis
    using read_limit_offset_zero
      [of ?self five_row_engine "''sensor_readings''" None None
          None ?w None five_rows, THEN conjunct2, THEN conjunct2, THEN conjunct2,
       THEN mp, OF ok] .
qed

subsection \<open>Streaming in batches\<close>

declare chunks.simps [simp del]

lemma chunks_Nil [simp]: "chunks b [] = []"
  by (simp add: chunks.simps)

lemma chunks_step:
  "0 < b \<Longrightarrow> xs \<noteq> [] \<Longrightarrow> chunks b xs = take b xs # chunks b (drop b xs)"
  by (subst chunks.simps) simp

lemma concat_chunks: "0 < b \<Longrightarrow> concat (chunks b xs) = xs"
proof (induction b xs rule: chunks.induct)
  case (1 b xs)
  show ?case
  proof (cases "xs = []")
    case True
    then show ?thesis by simp
  next
    case False
    then show ?thesis using 1 by (simp add: chunks_step)
  qed
qed

lemma lengths_chunks:
  "0 < b \<Longrightarrow> map length (chunks b xs) =
     replicate (length xs div b) b @ (if length xs mod b = 0 then [] else [length xs mod b])"
proof (induction b xs rule: chunks.induct)
  case (1 b xs)
  show ?case
  proof (cases "xs = []")
    case True
    then show ?thesis by simp
  next
    case False
    show ?thesis
    proof (cases "length xs < b")
      case True
      then have "drop b xs = []" by simp
      then show ?thesis using False True 1(2) by (simp add: chunks_step)
    next
      case ge: False
      then have le: "b \<le> length xs" by simp
      have d: "length xs div b = Suc ((length xs - b) div b)"
        using le 1(2) by (simp add: le_div_geq)
      have m: "length xs mod b = (length xs - b) mod b"
        using le by (simp add: le_mod_geq)
      have ih: "map length (chunks b (drop b xs)) =
          replicate ((length xs - b) div b) b @
          (if (length xs - b) mod b = 0 then [] else [(length xs - b) mod b])"
        using 1(1)[OF _ 1(2)] False 1(2) by simp
      show ?thesis
        using False le 1(2) by (simp add: chunks_step ih d m min_def)
    qed
  qed
qed

text \<open>
  The text \<open>read_sensor_data\<close> builds for page \<open>k\<close> of a stream is the unpaginated text
  followed by \<open>LIMIT\<close> and, from the second page on, \<open>OFFSET\<close>: the first page has the
  offset \<open>0\<close>, which adds no clause.
\<close>

lemma build_query_page:
  "0 < bs \<Longrightarrow>
   build_query t wc ob (Some bs) (Some (int k * bs)) =
     page_query (build_query t wc ob None None) bs k"
  by (simp add: build_query_def page_query_def Let_def split: option.splits)

lemma reads_log_one:
  "reads_log base bs k (Suc 0) = [Connect, Execute (page_query base bs k), Close]"
  by (simp add: reads_log_def)

lemma reads_log_Suc:
  "reads_log base bs k (Suc n) =
     [Connect, Execute (page_query base bs k), Close] @ reads_log base bs (Suc k) n"
proof -
  have "[k..<k + Suc n] = k # [Suc k..<Suc k + n]"
    by (simp add: upt_rec)
  then show ?thesis by (simp add: reads_log_def)
qed

lemma stream_loop_run:
  assumes bs: "0 < bs" and mr: "0 < max_retries (config self)"
      and pg: "paginates run (build_query t wc ob None None) bs rs"
  shows "faults w = [] \<Longrightarrow> k * nat bs \<le> length rs \<Longrightarrow>
     (length rs - k * nat bs) div nat bs < fuel \<Longrightarrow>
     stream_loop fuel self run t bs wc ob (int k * bs) yielded w =
       Some (yielded @ chunks (nat bs) (drop (k * nat bs) rs), None,
             w\<lparr>db_log := db_log w @
                  reads_log (build_query t wc ob None None) bs k
                    (Suc ((length rs - k * nat bs) div nat bs))\<rparr>)"
proof (induction fuel arbitrary: k yielded w)
  case 0
  then show ?case by simp
next
  case (Suc fuel)
  define b where "b = nat bs"
  define base where "base = build_query t wc ob None None"
  have b: "0 < b" "bs = int b" using bs by (simp_all add: b_def)
  have within: "k * b \<le> length rs" using Suc.prems(2) by (simp add: b_def)
  let ?batch = "take b (drop (k * b) rs)"
  let ?w1 = "w\<lparr>db_log := db_log w @ [Connect, Execute (page_query base bs k), Close]\<rparr>"
  have rd: "read_sensor_data self run t wc ob (Some bs) (Some (int k * bs)) w = (Inr ?batch, ?w1)"
  proof -
    have "run (page_query base bs k) = Inr ?batch"
      using pg within by (simp add: paginates_def base_def b_def)
    then have "run (build_query t wc ob (Some bs) (Some (int k * bs))) = Inr ?batch"
      by (simp add: build_query_page[OF bs] base_def)
    from read_sensor_data_healthy[where run = run and w = w and self = self and t = t
           and wc = wc and ob = ob and lmt = "Some bs" and off = "Some (int k * bs)"
           and rs = ?batch, OF Suc.prems(1) mr this]
    show ?thesis by (simp add: build_query_page[OF bs] base_def)
  qed
  have f1: "faults ?w1 = []" using Suc.prems(1) by simp
  consider (empty) "length rs = k * b" | (short) "k * b < length rs" "length rs - k * b < b"
    | (full) "b \<le> length rs - k * b" using within by linarith
  then show ?case
  proof cases
    case empty
    then have "?batch = []" by simp
    moreover have "drop (k * b) rs = []" using empty by simp
    moreover have "(length rs - k * b) div b = 0" using empty by simp
    ultimately show ?thesis
      using rd by (simp add: b_def[symmetric] base_def[symmetric] reads_log_one)
  next
    case short
    then have ne: "drop (k * b) rs \<noteq> []" by simp
    have lb: "length ?batch = length rs - k * b" using short by simp
    have "drop b (drop (k * b) rs) = []" using short by simp
    then have ch: "chunks b (drop (k * b) rs) = [?batch]"
      using chunks_step[OF b(1) ne] by simp
    have d0: "(length rs - k * b) div b = 0" using short by simp
    have nonempty: "?batch \<noteq> []" using short b by simp
    have "length ?batch < b" using short lb by linarith
    then have lt: "int (length ?batch) < bs" unfolding b(2) by (simp only: of_nat_less_iff)
    show ?thesis
      using rd nonempty lt ch d0
      by (simp add: b_def[symmetric] base_def[symmetric] reads_log_one
            del: length_take length_drop take_eq_Nil)
  next
    case full
    then have ne: "drop (k * b) rs \<noteq> []" using b by auto
    have lb: "length ?batch = b" using full by simp
    have nonempty: "?batch \<noteq> []" using lb b by auto
    have nlt: "\<not> int (length ?batch) < bs" unfolding b(2) lb by simp
    have ch: "chunks b (drop (k * b) rs) = ?batch # chunks b (drop (Suc k * b) rs)"
      using chunks_step[OF b(1) ne] by (simp add: add.commute)
    have d: "(length rs - k * b) div b = Suc ((length rs - Suc k * b) div b)"
      using full b by (simp add: le_div_geq diff_diff_eq add.commute)
    have fuel: "(length rs - Suc k * nat bs) div nat bs < fuel"
      using Suc.prems(3) d by (simp add: b_def)
    have within': "Suc k * nat bs \<le> length rs"
      using full within by (simp add: b_def)
    have nxt: "int k * bs + bs = int (Suc k) * bs" by (simp add: algebra_simps)
    have ih: "stream_loop fuel self run t bs wc ob (int (Suc k) * bs) (yielded @ [?batch]) ?w1 =
       Some ((yielded @ [?batch]) @ chunks (nat bs) (drop (Suc k * nat bs) rs), None,
             ?w1\<lparr>db_log := db_log ?w1 @
                  reads_log (build_query t wc ob None None) bs (Suc k)
                    (Suc ((length rs - Suc k * nat bs) div nat bs))\<rparr>)"
      using Suc.IH[OF f1 within' fuel] .
    show ?thesis
      apply (simp only: stream_loop.simps rd nxt prod.case sum.case)
      apply (simp only: nonempty nlt if_False ih)
      apply (simp add: b_def[symmetric] base_def[symmetric] ch d reads_log_Suc[of base bs k]
               del: length_take length_drop)
      done
  qed
qed

text \<open>
  Claim C6.  Take a positive batch size, a healthy connection and an engine that
  paginates the unpaginated statement of the table, \<open>where\<close> and ordering arguments,
  whose rows are \<open>rs\<close>.  Then \<open>stream_sensor_data\<close> ends without an exception after one
  more read than \<open>rs\<close> has full batches.  Its reads are successive \<open>read_sensor_data\<close>
  calls whose texts are the unpaginated text followed by \<open>LIMIT batch_size\<close> and by
  \<open>OFFSET\<close> \<open>batch_size\<close>, \<open>2 * batch_size\<close>, ... from the second read on; the stream
  stops at the first batch that is empty or shorter than \<open>batch_size\<close>.  The batches
  yielded are full but possibly the last, and their concatenation is the result of the
  unpaginated \<open>read_sensor_data\<close> with the same table, \<open>where\<close> and ordering.  For five
  rows and \<open>batch_size = 2\<close> the sizes are \<open>[2, 2, 1]\<close>.
\<close>

theorem stream_yields_batches:
  assumes "0 < batch_size" and "0 < max_retries (config self)" and "faults w = []"
      and "paginates run (build_query t wc ob None None) batch_size rs"
      and "length rs div nat batch_size < fuel"
  shows "\<exists>batches.
           stream_sensor_data fuel self run t batch_size wc ob w =
             Some (batches, None,
                   w\<lparr>db_log := db_log w @
                        reads_log (build_query t wc ob None None) batch_size 0
                          (Suc (length rs div nat batch_size))\<rparr>) \<and>
           concat batches = rs \<and>
           fst (read_sensor_data self run t wc ob None None w) = Inr (concat batches) \<and>
           map length batches =
             replicate (length rs div nat batch_size) (nat batch_size) @
             (if length rs mod nat batch_size = 0 then []
              else [length rs mod nat batch_size])"
proof -
  have b: "0 < nat batch_size" using assms(1) by simp
  have run: "stream_sensor_data fuel self run t batch_size wc ob w =
      Some (chunks (nat batch_size) rs, None,
            w\<lparr>db_log := db_log w @
                 reads_log (build_query t wc ob None None) batch_size 0
                   (Suc (length rs div nat batch_size))\<rparr>)"
    unfolding stream_sensor_data_def
    using stream_loop_run[where bs = batch_size and self = self and run = run
            and t = t and wc = wc and ob = ob and rs = rs and w = w and k = 0 and fuel = fuel
            and yielded = "[]"] assms
    by simp
  have all: "run (build_query t wc ob None None) = Inr rs"
    using assms(4) by (simp add: paginates_def)
  have rd: "fst (read_sensor_data self run t wc ob None None w) = Inr rs"
    using read_sensor_data_healthy[where run = run and w = w and self = self and t = t
            and wc = wc and ob = ob and lmt = None and off = None and rs = rs,
            OF assms(3,2) all] by simp
  show ?thesis
    using run rd concat_chunks[OF b, of rs] lengths_chunks[OF b, of rs]
    by (intro exI[of _ "chunks (nat batch_size) rs"]) simp
qed

lemma five_row_engine_paginates:
  "paginates five_row_engine (build_query ''sensor_readings'' None None None None) 2 five_rows"
proof -
  have base: "build_query ''sensor_readings'' None None None None =
              ''SELECT * FROM sensor_readings ORDER BY timestamp DESC''"
    by (simp add: build_query_def)
  have p0: "five_row_engine
              (page_query ''SELECT * FROM sensor_readings ORDER BY timestamp DESC'' 2 0) =
            Inr (take (nat 2) (drop (0 * nat 2) five_rows))"
    by code_simp
  have p1: "five_row_engine
              (page_query ''SELECT * FROM sensor_readings ORDER BY timestamp DESC'' 2 1) =
            Inr (take (nat 2) (drop (1 * nat 2) five_rows))"
    by code_simp
  have p2: "five_row_engine
              (page_query ''SELECT * FROM sensor_readings ORDER BY timestamp DESC'' 2 2) =
            Inr (take (nat 2) (drop (2 * nat 2) five_rows))"
    by code_simp
  have pages: "five_row_engine
              (page_query ''SELECT * FROM sensor_readings ORDER BY timestamp DESC'' 2 i) =
            Inr (take (nat 2) (drop (i * nat 2) five_rows))"
    if "i * nat 2 \<le> length five_rows" for i
  proof -
    have "i \<le> 2" using that by (simp add: five_rows_def)
    then have "i = 0 \<or> i = 1 \<or> i = 2" by auto
    then show ?thesis using p0 p1 p2 by blast
  qed
  show ?thesis
    unfolding paginates_def base
    using pages by (simp add: five_row_engine_def)
qed

text \<open>The test suite's table of five rows, streamed with \<open>batch_size = 2\<close>.\<close>

theorem stream_yields_batches_witness:
  "\<exists>batches w1.
     stream_sensor_data 3
       \<lparr>db_path = ''/data/sensor_data.db'', config = default_reader_config,
         connection_string = ''file:/data/sensor_data.db?mode=ro''\<rparr>
       five_row_engine ''sensor_readings'' 2 None None
       \<lparr>faults = [], slept = [], db_log = []\<rparr>
       = Some (batches, None, w1) \<and>
     map length batches = [2, 2, 1] \<and>
     concat batches = five_rows \<and>
     fst (read_sensor_data
       \<lparr>db_path = ''/data/sensor_data.db'', config = default_reader_config,
         connection_string = ''file:/data/sensor_data.db?mode=ro''\<rparr>
       five_row_engine ''sensor_readings'' None None None None
       \<lparr>faults = [], slept = [], db_log = []\<rparr>)
       = Inr (concat batches)"
proof -
  let ?self = "\<lparr>db_path = ''/data/sensor_data.db'', config = default_reader_config,
         connection_string = ''file:/data/sensor_data.db?mode=ro''\<rparr>"
  let ?w = "\<lparr>faults = [], slept = [], db_log = []\<rparr>"
  have h1: "(0::int) < 2" by simp
  have h2: "0 < max_retries (config ?self)" by (simp add: default_reader_config_def)
  have h3: "faults ?w = []" by simp
  have h5: "length five_rows div nat 2 < 3" by (simp add: five_rows_def)
  from stream_yields_batches[where batch_size = 2 and self = ?self and run = five_row_engine
         and t = "''sensor_readings''" and wc = None and ob = None
         and rs = five_rows and fuel = 3 and w = ?w,
         OF h1 h2 h3 five_row_engine_paginates h5]
  obtain batches where
    "stream_sensor_data 3 ?self five_row_engine ''sensor_readings'' 2 None None ?w =
       Some (batches, None,
             ?w\<lparr>db_log := db_log ?w @
                  reads_log (build_query ''sensor_readings'' None None None None) 2 0
                    (Suc (length five_rows div nat 2))\<rparr>)"
    and "concat batches = five_rows"
    and "fst (read_sensor_data ?self five_row_engine ''sensor_readings'' None None None None ?w)
           = Inr (concat batches)"
    and "map length batches =
           replicate (length five_rows div nat 2) (nat 2) @
           (if length five_rows mod nat 2 = 0 then []
            else [length five_rows mod nat 2])"
    by blast
  moreover have "replicate (length five_rows div nat 2) (nat 2) @
           (if length five_rows mod nat 2 = 0 then []
            else [length five_rows mod nat 2]) = [2, 2, 1]"
    by code_simp
  ultimately show ?thesis
    by (intro exI[of _ batches] exI conjI) (assumption | simp only:)+
qed

text \<open>The same run evaluated, with the three queries it sends.\<close>

lemma stream_five_rows_by_two:
  "stream_sensor_data 3
     \<lparr>db_path = ''/data/sensor_data.db'', config = default_reader_config,
       connection_string = ''file:/data/sensor_data.db?mode=ro''\<rparr>
     five_row_engine ''sensor_readings'' 2 None None
     \<lparr>faults = [], slept = [], db_log = []\<rparr>
   = Some ([[''r5'', ''r4''], [''r3'', ''r2''], [''r1'']], None,
           \<lparr>faults = [], slept = [],
             db_log =
               [Connect, Execute ''SELECT * FROM sensor_readings ORDER BY timestamp DESC LIMIT 2'',
                Close,
                Connect,
                Execute ''SELECT * FROM sensor_readings ORDER BY timestamp DESC LIMIT 2 OFFSET 2'',
                Close,
                Connect,
                Execute ''SELECT * FROM sensor_readings ORDER BY timestamp DESC LIMIT 2 OFFSET 4'',
                Close]\<rparr>)"
  by code_simp

text \<open>
  The premises are needed.  With \<open>batch_size = 0\<close> the query has no \<open>LIMIT\<close>; and an
  ordering argument that ends in a comment, such as \<open>timestamp DESC --\<close>, makes the
  engine ignore the appended clauses.  Either way every read returns the whole
  selection, such an engine does not paginate the statement, and on a selection that is
  not empty the loop never ends, whatever number of reads is allowed.
\<close>

lemma stream_batch_size_zero:
  assumes "0 < max_retries (config self)" and "faults w = []"
      and "run (build_query t wc ob None None) = Inr rs"
      and "rs \<noteq> []"
  shows "stream_loop fuel self run t 0 wc ob 0 yielded w = None"
  using assms(2)
proof (induction fuel arbitrary: yielded w)
  case 0
  show ?case by simp
next
  case (Suc fuel)
  have all: "run (build_query t wc ob (Some 0) (Some 0)) = Inr rs"
    using assms(3) by (simp add: build_query_zero)
  have rd: "read_sensor_data self run t wc ob (Some 0) (Some 0) w =
     (Inr rs, w\<lparr>db_log := db_log w @ [Connect, Execute (build_query t wc ob (Some 0) (Some 0)), Close]\<rparr>)"
    using read_sensor_data_healthy[where run = run and w = w and self = self and t = t
            and wc = wc and ob = ob and lmt = "Some 0" and off = "Some 0" and rs = rs,
            OF Suc.prems assms(1) all] .
  show ?case
    using assms(4) Suc.prems by (simp add: rd Suc.IH)
qed

lemma stream_clauses_ignored:
  assumes "0 < max_retries (config self)" and "faults w = []"
      and "\<forall>q. run q = Inr rs" and "0 < bs" and "int (length rs) = bs"
  shows "stream_loop fuel self run t bs wc ob off yielded w = None"
  using assms(2)
proof (induction fuel arbitrary: off yielded w)
  case 0
  show ?case by simp
next
  case (Suc fuel)
  have all: "run (build_query t wc ob (Some bs) (Some off)) = Inr rs"
    using assms(3) by simp
  have rd: "read_sensor_data self run t wc ob (Some bs) (Some off) w =
     (Inr rs, w\<lparr>db_log := db_log w @ [Connect, Execute (build_query t wc ob (Some bs) (Some off)), Close]\<rparr>)"
    using read_sensor_data_healthy[where run = run and w = w and self = self and t = t
            and wc = wc and ob = ob and lmt = "Some bs" and off = "Some off" and rs = rs,
            OF Suc.prems assms(1) all] .
  have ne: "rs \<noteq> []" using assms(4,5) by auto
  show ?case
    using ne assms(5) Suc.prems by (simp add: rd Suc.IH)
qed

section \<open>Properties of the pipeline controller\<close>

subsection \<open>The guards of the two constructors\<close>






subsection \<open>What a \<open>set_pipeline\<close> call does to the rows\<close>

lemma attempt_fault_rows: "attempt_fault w = (f, w1) \<Longrightarrow> rows w1 = rows w"
  by (auto simp: attempt_fault_def sqlite_connect_def split: list.splits)

lemma sleep_rows: "rows (sleep d w) = rows w"
  by (simp add: sleep_def)


lemma active_deactivate [simp]: "filter active (deactivate_all rs) = []"
  by (induction rs) (auto simp: deactivate_all_def active_def)



lemma set_pipeline_loop_not_False:
  "a + n = 5 \<Longrightarrow> 0 < n \<Longrightarrow> fst (set_pipeline_loop n a pt who why now w) \<noteq> Inr False"
proof (induction n arbitrary: a w)
  case 0
  then show ?case by simp
next
  case (Suc n)
  obtain f w0 where af: "attempt_fault w = (f, w0)" by (cases "attempt_fault w")
  show ?case
  proof (cases f)
    case None
    then show ?thesis using af by simp
  next
    case (Some e)
    show ?thesis
    proof (cases "transient e \<and> int a < 5 - 1")
      case True
      then obtain m where m: "e = OperationalError m" "py_in ''locked'' m"
        by (cases e) (auto simp: transient_def)
      have n: "Suc a + n = 5" "0 < n" using Suc.prems True by auto
      show ?thesis
        using af Some m True Suc.IH[OF n] by simp
    next
      case False
      then show ?thesis
        using af Some by (cases e) (auto simp: transient_def)
    qed
  qed
qed












lemma transient_locked: "transient (OperationalError ''database is locked'')"
  by code_simp



text \<open>The first of these calls on a healthy engine, with the rows it leaves.\<close>

lemma first_call_rows:
  "set_pipeline VALIDATED (Some ''ops'') (Some ''go live'') ''2024-01-15 10:31:00''
     \<lparr>faults = [], slept = [], db_log = [],
       rows = table_rows (init_database ''2024-01-15 10:30:00'' None)\<rparr>
   = (Inr True,
      \<lparr>faults = [], slept = [], db_log = [Connect],
        rows = [\<lparr>row_id = 1, pipeline_type = ''raw'', created_at = ''2024-01-15 10:30:00'',
                  created_by = Some ''system'', reason = Some ''Initial configuration'',
                  is_active = Some 0\<rparr>,
                \<lparr>row_id = 2, pipeline_type = ''validated'',
                  created_at = ''2024-01-15 10:31:00'', created_by = Some ''ops'',
                  reason = Some ''go live'', is_active = Some 1\<rparr>]\<rparr>)"
  by (simp add: set_pipeline_def attempt_fault_def sqlite_connect_def numeral_eq_Suc
        init_database_def migrate_columns_def new_table_def count_active_def active_def
        insert_config_def deactivate_all_def Let_def)


subsection \<open>The retry policy of \<open>set_pipeline\<close>\<close>

lemma attempt_fault_Cons:
  "faults w = f # fs \<Longrightarrow>
   attempt_fault w = (f, w\<lparr>faults := fs, db_log := db_log w @ [Connect]\<rparr>)"
  by (simp add: attempt_fault_def sqlite_connect_def)

lemma attempt_fault_Nil:
  "faults w = [] \<Longrightarrow> attempt_fault w = (None, w\<lparr>db_log := db_log w @ [Connect]\<rparr>)"
  by (simp add: attempt_fault_def sqlite_connect_def)

text \<open>k transient faults are retried while attempts remain.\<close>
lemma set_pipeline_loop_retries:
  "\<forall>e\<in>set es. transient e \<Longrightarrow> faults w = map Some es @ rest \<Longrightarrow>
   a + length es \<le> 4 \<Longrightarrow> length es \<le> n \<Longrightarrow>
   set_pipeline_loop n a pt who why now w =
     set_pipeline_loop (n - length es) (a + length es) pt who why now
       (w\<lparr>faults := rest,
          slept := slept w @ map (\<lambda>i. 0.1 * 2 ^ i) [a..<a + length es],
          db_log := db_log w @ replicate (length es) Connect\<rparr>)"
proof (induction es arbitrary: w a n)
  case Nil
  then have "w\<lparr>faults := rest\<rparr> = w" by simp
  then show ?case by simp
next
  case (Cons e es)
  obtain m where m: "e = OperationalError m" "py_in ''locked'' m"
    using Cons.prems(1) by (cases e) (auto simp: transient_def)
  obtain n' where n': "n = Suc n'" using Cons.prems(4) by (cases n) auto
  let ?w1 = "sleep (0.1 * 2 ^ a) (w\<lparr>faults := map Some es @ rest, db_log := db_log w @ [Connect]\<rparr>)"
  have af: "attempt_fault w = (Some e, w\<lparr>faults := map Some es @ rest, db_log := db_log w @ [Connect]\<rparr>)"
    using Cons.prems(2) by (simp add: attempt_fault_Cons)
  have a4: "int a < 5 - 1" using Cons.prems(3) by simp
  have step: "set_pipeline_loop n a pt who why now w = set_pipeline_loop n' (Suc a) pt who why now ?w1"
    using af m a4 by (simp add: n')
  have ih: "set_pipeline_loop n' (Suc a) pt who why now ?w1 =
     set_pipeline_loop (n' - length es) (Suc a + length es) pt who why now
       (?w1\<lparr>faults := rest,
          slept := slept ?w1 @ map (\<lambda>i. 0.1 * 2 ^ i) [Suc a..<Suc a + length es],
          db_log := db_log ?w1 @ replicate (length es) Connect\<rparr>)"
    using Cons.prems by (intro Cons.IH) (simp_all add: sleep_def n')
  have u: "[a..<a + length (e # es)] = a # [Suc a..<Suc a + length es]"
    by (simp add: upt_rec)
  show ?case
    unfolding step ih u
    by (simp add: sleep_def n')
qed

lemma backoff_eq: "backoff k = map (\<lambda>i. 0.1 * 2 ^ i) [0..<0 + k]"
  by (simp add: backoff_def)

lemma set_pipeline_after_retries:
  assumes "\<forall>e\<in>set es. transient e" and "faults w = map Some es @ rest" and "length es \<le> 4"
  shows "set_pipeline pt who why now w =
     set_pipeline_loop (5 - length es) (length es) pt who why now
       (w\<lparr>faults := rest, slept := slept w @ backoff (length es),
          db_log := db_log w @ replicate (length es) Connect\<rparr>)"
  unfolding set_pipeline_def backoff_eq
  using set_pipeline_loop_retries[OF assms(1,2), of 0 5 pt who why now] assms(3) by simp

text \<open>
  Claim C3.  \<open>set_pipeline\<close> makes at most five attempts.  An attempt that fails with
  an \<open>OperationalError\<close> whose message contains \<open>locked\<close> is retried after a delay of
  \<open>0.1 * 2 ^ attempt\<close> seconds, so after \<open>k\<close> such failures the delays slept are
  \<open>0.1, 0.2, ...\<close> (\<open>backoff k\<close>); when the next attempt succeeds the call returns
  \<open>True\<close> with the change committed.  Any other exception is raised at once: nothing
  more of the script is consumed, no further delay is slept, and the rows are as
  before.  When the fifth attempt also meets the lock, its exception is raised, after
  the delays \<open>0.1, 0.2, 0.4, 0.8\<close> and with the rows as before; the write is not
  dropped silently, since the call never returns \<open>False\<close>.  The exception raised on
  exhaustion is the engine's \<open>OperationalError\<close>, the form the store's unavailability
  takes in this code.
\<close>

theorem set_pipeline_retry_policy:
  assumes "\<forall>e\<in>set es. transient e"
  shows
   "(length es \<le> 4 \<and> (faults w = map Some es \<or> faults w = map Some es @ None # rest) \<longrightarrow>
       fst (set_pipeline pt who why now w) = Inr True \<and>
       slept (snd (set_pipeline pt who why now w)) = slept w @ backoff (length es) \<and>
       rows (snd (set_pipeline pt who why now w)) =
         insert_config pt who why now (deactivate_all (rows w))) \<and>
    (length es \<le> 4 \<and> \<not> transient e \<and> faults w = map Some es @ Some e # rest \<longrightarrow>
       fst (set_pipeline pt who why now w) = Inl e \<and>
       slept (snd (set_pipeline pt who why now w)) = slept w @ backoff (length es) \<and>
       rows (snd (set_pipeline pt who why now w)) = rows w \<and>
       faults (snd (set_pipeline pt who why now w)) = rest) \<and>
    (length es = 4 \<and> transient e \<and> faults w = map Some es @ Some e # rest \<longrightarrow>
       fst (set_pipeline pt who why now w) = Inl e \<and>
       slept (snd (set_pipeline pt who why now w)) = slept w @ [0.1, 0.2, 0.4, 0.8] \<and>
       rows (snd (set_pipeline pt who why now w)) = rows w \<and>
       faults (snd (set_pipeline pt who why now w)) = rest) \<and>
    fst (set_pipeline pt who why now w) \<noteq> Inr False"
proof (intro conjI impI)
  assume a: "length es \<le> 4 \<and> (faults w = map Some es \<or> faults w = map Some es @ None # rest)"
  then obtain n where n: "5 - length es = Suc n" by (cases "5 - length es") auto
  from a have "faults w = map Some es @ [] \<or> faults w = map Some es @ None # rest" by simp
  then have "fst (set_pipeline pt who why now w) = Inr True \<and>
       slept (snd (set_pipeline pt who why now w)) = slept w @ backoff (length es) \<and>
       rows (snd (set_pipeline pt who why now w)) =
         insert_config pt who why now (deactivate_all (rows w))"
  proof
    assume f: "faults w = map Some es @ []"
    show ?thesis
      using a by (simp add: set_pipeline_after_retries[OF assms f] n attempt_fault_Nil)
  next
    assume f: "faults w = map Some es @ None # rest"
    show ?thesis
      using a by (simp add: set_pipeline_after_retries[OF assms f] n attempt_fault_Cons)
  qed
  then show "fst (set_pipeline pt who why now w) = Inr True"
    and "slept (snd (set_pipeline pt who why now w)) = slept w @ backoff (length es)"
    and "rows (snd (set_pipeline pt who why now w)) =
         insert_config pt who why now (deactivate_all (rows w))"
    by simp_all
next
  assume a: "length es \<le> 4 \<and> \<not> transient e \<and> faults w = map Some es @ Some e # rest"
  then obtain n where n: "5 - length es = Suc n" by (cases "5 - length es") auto
  have f: "faults w = map Some es @ Some e # rest" using a by simp
  have r: "set_pipeline pt who why now w =
       (Inl e, w\<lparr>faults := rest, slept := slept w @ backoff (length es),
                db_log := db_log w @ replicate (length es) Connect @ [Connect]\<rparr>)"
    using a by (cases e) (simp_all add: set_pipeline_after_retries[OF assms f] n attempt_fault_Cons transient_def)
  show "fst (set_pipeline pt who why now w) = Inl e"
    and "slept (snd (set_pipeline pt who why now w)) = slept w @ backoff (length es)"
    and "rows (snd (set_pipeline pt who why now w)) = rows w"
    and "faults (snd (set_pipeline pt who why now w)) = rest"
    by (simp_all add: r)
next
  assume a: "length es = 4 \<and> transient e \<and> faults w = map Some es @ Some e # rest"
  have f: "faults w = map Some es @ Some e # rest" using a by simp
  have l: "length es \<le> 4" using a by simp
  have b4: "backoff 4 = [0.1, 0.2, 0.4, 0.8]"
    by (simp add: backoff_def upt_rec)
  have r: "set_pipeline pt who why now w =
       (Inl e, w\<lparr>faults := rest, slept := slept w @ backoff 4,
                db_log := db_log w @ replicate 4 Connect @ [Connect]\<rparr>)"
    using a by (cases e) (simp_all add: set_pipeline_after_retries[OF assms f l] attempt_fault_Cons transient_def)
  show "fst (set_pipeline pt who why now w) = Inl e"
    and "slept (snd (set_pipeline pt who why now w)) = slept w @ [0.1, 0.2, 0.4, 0.8]"
    and "rows (snd (set_pipeline pt who why now w)) = rows w"
    and "faults (snd (set_pipeline pt who why now w)) = rest"
    by (simp_all add: r b4)
next
  show "fst (set_pipeline pt who why now w) \<noteq> Inr False"
    using set_pipeline_loop_not_False[of 0 5 pt who why now w]
    by (simp add: set_pipeline_def)
qed

text \<open>
  Five attempts that all meet the lock, on the store of a new file: the fifth lock
  error is raised after four delays and nothing is written.  And two locked attempts
  followed by a free one: the change is committed after the delays \<open>0.1\<close> and \<open>0.2\<close>.
\<close>

theorem set_pipeline_retry_policy_witness:
  "fst (set_pipeline VALIDATED (Some ''ops'') None ''2024-01-15 10:31:00''
          \<lparr>faults = [Some (OperationalError ''database is locked''),
                     Some (OperationalError ''database is locked''),
                     Some (OperationalError ''database is locked''),
                     Some (OperationalError ''database is locked''),
                     Some (OperationalError ''database is locked'')],
            slept = [], db_log = [],
            rows = table_rows (init_database ''2024-01-15 10:30:00'' None)\<rparr>)
     = Inl (OperationalError ''database is locked'') \<and>
   slept (snd (set_pipeline VALIDATED (Some ''ops'') None ''2024-01-15 10:31:00''
          \<lparr>faults = [Some (OperationalError ''database is locked''),
                     Some (OperationalError ''database is locked''),
                     Some (OperationalError ''database is locked''),
                     Some (OperationalError ''database is locked''),
                     Some (OperationalError ''database is locked'')],
            slept = [], db_log = [],
            rows = table_rows (init_database ''2024-01-15 10:30:00'' None)\<rparr>))
     = [0.1, 0.2, 0.4, 0.8] \<and>
   rows (snd (set_pipeline VALIDATED (Some ''ops'') None ''2024-01-15 10:31:00''
          \<lparr>faults = [Some (OperationalError ''database is locked''),
                     Some (OperationalError ''database is locked''),
                     Some (OperationalError ''database is locked''),
                     Some (OperationalError ''database is locked''),
                     Some (OperationalError ''database is locked'')],
            slept = [], db_log = [],
            rows = table_rows (init_database ''2024-01-15 10:30:00'' None)\<rparr>))
     = table_rows (init_database ''2024-01-15 10:30:00'' None) \<and>
   fst (set_pipeline VALIDATED (Some ''ops'') None ''2024-01-15 10:31:00''
          \<lparr>faults = [Some (OperationalError ''database is locked''),
                     Some (OperationalError ''database is locked'')],
            slept = [], db_log = [],
            rows = table_rows (init_database ''2024-01-15 10:30:00'' None)\<rparr>)
     = Inr True \<and>
   slept (snd (set_pipeline VALIDATED (Some ''ops'') None ''2024-01-15 10:31:00''
          \<lparr>faults = [Some (OperationalError ''database is locked''),
                     Some (OperationalError ''database is locked'')],
            slept = [], db_log = [],
            rows = table_rows (init_database ''2024-01-15 10:30:00'' None)\<rparr>))
     = [0.1, 0.2]"
proof -
  let ?l = "OperationalError ''database is locked''"
  let ?rows = "table_rows (init_database ''2024-01-15 10:30:00'' None)"
  let ?w5 = "\<lparr>faults = [Some ?l, Some ?l, Some ?l, Some ?l, Some ?l],
            slept = [], db_log = [], rows = ?rows\<rparr>"
  let ?w2 = "\<lparr>faults = [Some ?l, Some ?l], slept = [], db_log = [], rows = ?rows\<rparr>"
  have t4: "\<forall>e\<in>set [?l, ?l, ?l, ?l]. transient e"
    using transient_locked by simp
  have t2: "\<forall>e\<in>set [?l, ?l]. transient e"
    using transient_locked by simp
  have h5: "length [?l, ?l, ?l, ?l] = 4 \<and> transient ?l \<and>
            faults ?w5 = map Some [?l, ?l, ?l, ?l] @ Some ?l # []"
    using transient_locked by simp
  have h2: "length [?l, ?l] \<le> 4 \<and>
            (faults ?w2 = map Some [?l, ?l] \<or> faults ?w2 = map Some [?l, ?l] @ None # [])"
    by simp
  have b2: "backoff (length [?l, ?l]) = [0.1, 0.2]"
    by (simp add: backoff_def upt_rec)
  note p5 = set_pipeline_retry_policy
    [OF t4, of ?w5 "[]" VALIDATED "Some ''ops''" None "''2024-01-15 10:31:00''" ?l,
     THEN conjunct2, THEN conjunct2, THEN conjunct1, THEN mp, OF h5]
  note p2 = set_pipeline_retry_policy
    [OF t2, of ?w2 "[]" VALIDATED "Some ''ops''" None "''2024-01-15 10:31:00''" ?l,
     THEN conjunct1, THEN mp, OF h2]
  show ?thesis
    using p5 p2 b2 by simp
qed

subsection \<open>\<open>get_current_pipeline\<close> only reads\<close>

lemma get_current_pipeline_loop_rows:
  "rows (snd (get_current_pipeline_loop n a now w)) = rows w"
proof (induction n arbitrary: a w)
  case 0
  show ?case by simp
next
  case (Suc n)
  obtain f w0 where af: "attempt_fault w = (f, w0)" by (cases "attempt_fault w")
  have r0: "rows w0 = rows w" using af by (rule attempt_fault_rows)
  show ?case
  proof (cases f)
    case None
    then show ?thesis using af r0 by (simp split: option.splits)
  next
    case (Some e)
    then show ?thesis
      using af r0 Suc.IH by (cases e) (simp_all add: sleep_rows)
  qed
qed

lemma latest_active_None: "(latest_active rs = None) = (count_active rs = 0)"
  by (induction rs) (auto simp: count_active_def split: option.splits)

lemma get_current_pipeline_loop_default:
  "count_active (rows w) = 0 \<Longrightarrow> fst (get_current_pipeline_loop n a now w) = Inr c \<Longrightarrow>
   c = \<lparr>cfg_pipeline_type = ''raw'', cfg_created_at = now, cfg_created_by = Some ''system'',
        cfg_reason = Some ''Default configuration''\<rparr>"
proof (induction n arbitrary: a w)
  case 0
  then show ?case by simp
next
  case (Suc n)
  obtain f w0 where af: "attempt_fault w = (f, w0)" by (cases "attempt_fault w")
  have r0: "rows w0 = rows w" using af by (rule attempt_fault_rows)
  have la: "latest_active (rows w0) = None" using Suc.prems(1) r0 by (simp add: latest_active_None)
  show ?case
  proof (cases f)
    case None
    then show ?thesis using af la Suc.prems(2) by auto
  next
    case (Some e)
    show ?thesis
    proof (cases "transient e \<and> int a < 5 - 1")
      case True
      then obtain m where m: "e = OperationalError m" "py_in ''locked'' m"
        by (cases e) (auto simp: transient_def)
      have "fst (get_current_pipeline_loop n (Suc a) now (sleep (0.1 * 2 ^ a) w0)) = Inr c"
        using Suc.prems(2) af Some m True by simp
      moreover have "count_active (rows (sleep (0.1 * 2 ^ a) w0)) = 0"
        using Suc.prems(1) r0 by (simp add: sleep_rows)
      ultimately show ?thesis by (rule Suc.IH[rotated])
    next
      case False
      then have "fst (get_current_pipeline_loop (Suc n) a now w) = Inl e"
        using af Some by (cases e) (auto simp: transient_def)
      then show ?thesis using Suc.prems(2) by simp
    qed
  qed
qed

text \<open>
  Claim C9.  \<open>get_current_pipeline\<close> leaves the rows of \<open>pipeline_config\<close> as they
  were on every path: when it returns a record, when it retries after a lock, and when
  it raises.  With no active row it returns the default record, phase \<open>raw\<close> by
  \<open>system\<close>, built in memory and not inserted.
\<close>

theorem get_current_pipeline_reads_only:
  "rows (snd (get_current_pipeline now w)) = rows w \<and>
   (count_active (rows w) = 0 \<and> fst (get_current_pipeline now w) = Inr c \<longrightarrow>
      c = \<lparr>cfg_pipeline_type = ''raw'', cfg_created_at = now, cfg_created_by = Some ''system'',
           cfg_reason = Some ''Default configuration''\<rparr>) \<and>
   (count_active (rows w) = 0 \<and> (faults w = [] \<or> faults w = None # rest) \<longrightarrow>
      fst (get_current_pipeline now w) =
        Inr \<lparr>cfg_pipeline_type = ''raw'', cfg_created_at = now, cfg_created_by = Some ''system'',
             cfg_reason = Some ''Default configuration''\<rparr>)"
proof (intro conjI impI)
  show "rows (snd (get_current_pipeline now w)) = rows w"
    by (simp add: get_current_pipeline_def get_current_pipeline_loop_rows)
next
  assume "count_active (rows w) = 0 \<and> fst (get_current_pipeline now w) = Inr c"
  then show "c = \<lparr>cfg_pipeline_type = ''raw'', cfg_created_at = now, cfg_created_by = Some ''system'',
           cfg_reason = Some ''Default configuration''\<rparr>"
    using get_current_pipeline_loop_default[of w 5 0 now c] by (simp add: get_current_pipeline_def)
next
  assume a: "count_active (rows w) = 0 \<and> (faults w = [] \<or> faults w = None # rest)"
  then have la: "latest_active (rows w) = None" by (simp add: latest_active_None)
  have "\<exists>w0. attempt_fault w = (None, w0) \<and> rows w0 = rows w"
    using a by (auto simp: attempt_fault_def sqlite_connect_def)
  then obtain w0 where "attempt_fault w = (None, w0)" "rows w0 = rows w" by blast
  then show "fst (get_current_pipeline now w) =
        Inr \<lparr>cfg_pipeline_type = ''raw'', cfg_created_at = now, cfg_created_by = Some ''system'',
             cfg_reason = Some ''Default configuration''\<rparr>"
    using la by (simp add: get_current_pipeline_def numeral_eq_Suc)
qed

text \<open>
  A table whose only row is inactive, read while the database is locked once: the
  default record comes back after one retry and the table still holds that one row.
\<close>

lemma default_after_retry:
  "fst (get_current_pipeline ''2024-01-15T10:30:00''
          \<lparr>faults = [Some (OperationalError ''database is locked'')], slept = [], db_log = [],
            rows = [\<lparr>row_id = 1, pipeline_type = ''validated'',
                     created_at = ''2024-01-15 10:00:00'', created_by = Some ''ops'',
                     reason = None, is_active = Some 0\<rparr>]\<rparr>)
   = Inr \<lparr>cfg_pipeline_type = ''raw'', cfg_created_at = ''2024-01-15T10:30:00'',
          cfg_created_by = Some ''system'', cfg_reason = Some ''Default configuration''\<rparr>"
  using transient_locked
  by (simp add: get_current_pipeline_def attempt_fault_def sqlite_connect_def sleep_def
        transient_def active_def numeral_eq_Suc)

theorem get_current_pipeline_reads_only_witness:
  "rows (snd (get_current_pipeline ''2024-01-15T10:30:00''
          \<lparr>faults = [Some (OperationalError ''database is locked'')], slept = [], db_log = [],
            rows = [\<lparr>row_id = 1, pipeline_type = ''validated'',
                     created_at = ''2024-01-15 10:00:00'', created_by = Some ''ops'',
                     reason = None, is_active = Some 0\<rparr>]\<rparr>))
   = [\<lparr>row_id = 1, pipeline_type = ''validated'',
        created_at = ''2024-01-15 10:00:00'', created_by = Some ''ops'',
        reason = None, is_active = Some 0\<rparr>] \<and>
   fst (get_current_pipeline ''2024-01-15T10:30:00''
          \<lparr>faults = [Some (OperationalError ''database is locked'')], slept = [], db_log = [],
            rows = [\<lparr>row_id = 1, pipeline_type = ''validated'',
                     created_at = ''2024-01-15 10:00:00'', created_by = Some ''ops'',
                     reason = None, is_active = Some 0\<rparr>]\<rparr>)
   = Inr \<lparr>cfg_pipeline_type = ''raw'', cfg_created_at = ''2024-01-15T10:30:00'',
          cfg_created_by = Some ''system'', cfg_reason = Some ''Default configuration''\<rparr>"
proof -
  let ?w = "\<lparr>faults = [Some (OperationalError ''database is locked'')], slept = [], db_log = [],
            rows = [\<lparr>row_id = 1, pipeline_type = ''validated'',
                     created_at = ''2024-01-15 10:00:00'', created_by = Some ''ops'',
                     reason = None, is_active = Some 0\<rparr>]\<rparr>"
  have "rows (snd (get_current_pipeline ''2024-01-15T10:30:00'' ?w)) = rows ?w"
    using get_current_pipeline_reads_only[of "''2024-01-15T10:30:00''" ?w, THEN conjunct1] .
  then show ?thesis
    using default_after_retry by simp
qed

end
